theory Spec2Isabelle
  imports Complex_Main "HOL-Library.Word" "HOL-Library.Product_Lexorder"
begin

unbundle bit_operations_syntax

section \<open>Figure extraction pipeline of \<^verbatim>\<open>1.extract_pdf2img_excessive.py\<close>\<close>

text \<open>
  The embedding follows the Python source function by function and keeps its names.
  Conventions:
  \<^item> Python floats (page coordinates, scores) are exact \<^typ>\<open>real\<close> numbers;
  \<^item> a Python \<^verbatim>\<open>str\<close> is the list of its Unicode code points, so that \<^verbatim>\<open>len\<close> is
    \<^const>\<open>length\<close> also for CJK text;
  \<^item> Python's unbounded \<^verbatim>\<open>int\<close> is \<^typ>\<open>int\<close>;
  \<^item> what the libraries return (the decoded page, the rendered image, its edge density
    and perceptual hash, whether a file opens or saves) is input data of the model;
  \<^item> an exception is a value \<open>Inl e\<close> of a sum type.
\<close>

subsection \<open>Strings\<close>

type_synonym pystr = "nat list"

definition ascii :: "string \<Rightarrow> pystr" where
  "ascii s = map of_char s"

text \<open>The characters \<^verbatim>\<open>str.isspace\<close> and the pattern \<^verbatim>\<open>\s\<close> accept on a Unicode string.\<close>

definition is_space :: "nat \<Rightarrow> bool" where
  "is_space c \<longleftrightarrow>
     (9 \<le> c \<and> c \<le> 13) \<or> (28 \<le> c \<and> c \<le> 32) \<or> c = 133 \<or> c = 160 \<or> c = 5760 \<or>
     (8192 \<le> c \<and> c \<le> 8202) \<or> c = 8232 \<or> c = 8233 \<or> c = 8239 \<or> c = 8287 \<or> c = 12288"

definition lstrip :: "pystr \<Rightarrow> pystr" where
  "lstrip s = dropWhile is_space s"

definition strip :: "pystr \<Rightarrow> pystr" where
  "strip s = rev (dropWhile is_space (rev (dropWhile is_space s)))"

text \<open>\<^verbatim>\<open>sep.join(parts)\<close>\<close>

fun join :: "pystr \<Rightarrow> pystr list \<Rightarrow> pystr" where
  "join sep [] = []"
| "join sep [p] = p"
| "join sep (p # q # ps) = p @ sep @ join sep (q # ps)"

subsection \<open>Configuration constants\<close>

definition MIN_IMG_WIDTH :: int where "MIN_IMG_WIDTH = 200"
definition MIN_IMG_HEIGHT :: int where "MIN_IMG_HEIGHT = 100"
definition HASH_THRESHOLD :: nat where "HASH_THRESHOLD = 5"
definition SEARCH_MARGIN :: real where "SEARCH_MARGIN = 30"
definition LINE_GAP_STOP :: real where "LINE_GAP_STOP = 18"
definition WORD_JOIN_GAP :: real where "WORD_JOIN_GAP = 6"
definition CAPTION_MIN_LEN :: nat where "CAPTION_MIN_LEN = 8"
definition MERGE_DIST :: real where "MERGE_DIST = 12"
definition MIN_GRAPHIC_W :: real where "MIN_GRAPHIC_W = 120"
definition MIN_GRAPHIC_H :: real where "MIN_GRAPHIC_H = 80"

subsection \<open>Bounding boxes\<close>

type_synonym bbox = "real \<times> real \<times> real \<times> real"

fun bbox_expand :: "bbox \<Rightarrow> real \<Rightarrow> bbox" where
  "bbox_expand (x0, y0, x1, y1) margin = (x0 - margin, y0 - margin, x1 + margin, y1 + margin)"

fun bbox_union :: "bbox \<Rightarrow> bbox \<Rightarrow> bbox" where
  "bbox_union (a0, a1, a2, a3) (b0, b1, b2, b3) = (min a0 b0, min a1 b1, max a2 b2, max a3 b3)"

fun bbox_area :: "bbox \<Rightarrow> real" where
  "bbox_area (b0, b1, b2, b3) = max 0 (b2 - b0) * max 0 (b3 - b1)"

fun bbox_dist :: "bbox \<Rightarrow> bbox \<Rightarrow> real" where
  "bbox_dist (ax0, ay0, ax1, ay1) (bx0, by0, bx1, by1) =
     (let dx = max 0 (max (bx0 - ax1) (ax0 - bx1));
          dy = max 0 (max (by0 - ay1) (ay0 - by1))
      in sqrt (dx\<^sup>2 + dy\<^sup>2))"

subsection \<open>Page data supplied by the document decoder\<close>

record token =
  w_text :: pystr
  w_x0 :: real
  w_x1 :: real
  w_top :: real
  w_bottom :: real

text \<open>The primitive counts of a graphic cluster: the dict with keys lines, rects, curves.\<close>

record stats =
  n_lines :: int
  n_rects :: int
  n_curves :: int

text \<open>
  What the renderer and the image libraries give for a region: the pixel size of the
  rendered image, the mean of its edge-filtered grey version divided by 255, and its
  64-bit perceptual hash.
\<close>

record image =
  img_width :: int
  img_height :: int
  mean_edge :: real
  phash :: "64 word"

fun words_in_rect :: "token list \<Rightarrow> bbox \<Rightarrow> token list" where
  "words_in_rect ws (x0, y0, x1, y1) =
     filter (\<lambda>w. w_x0 w \<ge> x0 \<and> w_x1 w \<le> x1 \<and> w_top w \<ge> y0 \<and> w_bottom w \<le> y1) ws"

subsection \<open>Content classifier\<close>

fun text_and_edge_score :: "token list \<Rightarrow> bbox \<Rightarrow> image \<Rightarrow> real \<times> real" where
  "text_and_edge_score ws (bx0, by0, bx1, by1) pil_img =
     (let area = max 1 ((bx1 - bx0) * (by1 - by0));
          w_in = words_in_rect ws (bx0, by0, bx1, by1);
          text_area = foldl (\<lambda>acc w. acc + max 0 (w_x1 w - w_x0 w) * max 0 (w_bottom w - w_top w)) 0 w_in;
          text_ratio = min 1 (text_area / area)
      in (text_ratio, mean_edge pil_img))"

text \<open>
  \<^verbatim>\<open>if stats_hint:\<close> is the truth value of the argument: \<^verbatim>\<open>None\<close> is false, and a
  cluster's dict, which always has its three keys, is true.
\<close>

fun looks_like_plain_text :: "real \<Rightarrow> real \<Rightarrow> stats option \<Rightarrow> bool" where
  "looks_like_plain_text text_ratio mean_e None = (text_ratio > 0.55 \<and> mean_e < 0.10)"
| "looks_like_plain_text text_ratio mean_e (Some st) =
     (if n_lines st + n_curves st \<ge> 6 then False
      else if n_rects st \<ge> 3 then False
      else (text_ratio > 0.55 \<and> mean_e < 0.10))"

subsection \<open>Caption locator\<close>

text \<open>
  \<^verbatim>\<open>LABEL_REGEX.match(text)\<close> with the flag \<^verbatim>\<open>re.I\<close>. The pattern is anchored at the start,
  skips white space, takes one of the label words, skips white space again and then needs
  a digit; what follows the first digit never decides whether there is a match. With its
  optional parts written out the alternation accepts the ten words of
  \<open>label_words\<close>, and backtracking tries every one of them. Under \<^verbatim>\<open>re.I\<close> a letter
  of the pattern accepts both of its ASCII cases, and \<^verbatim>\<open>i\<close> and \<^verbatim>\<open>s\<close> also accept
  U+0130, U+0131 and U+017F.
\<close>

definition ci_eq :: "nat \<Rightarrow> nat \<Rightarrow> bool" where
  "ci_eq p c \<longleftrightarrow>
     c = p \<or> (97 \<le> p \<and> p \<le> 122 \<and> c + 32 = p) \<or>
     (p = 105 \<and> (c = 304 \<or> c = 305)) \<or> (p = 115 \<and> c = 383)"

fun match_ci :: "pystr \<Rightarrow> pystr \<Rightarrow> pystr option" where
  "match_ci [] s = Some s"
| "match_ci (p # ps) [] = None"
| "match_ci (p # ps) (c # cs) = (if ci_eq p c then match_ci ps cs else None)"

definition label_words :: "pystr list" where
  "label_words =
     [ascii ''fig'', ascii ''fig.'', ascii ''figure'', ascii ''figs'', ascii ''table'',
      ascii ''tab'', ascii ''tab.'', [22270, 34920], [22270], [34920]]"

definition is_digit :: "nat \<Rightarrow> bool" where
  "is_digit c \<longleftrightarrow> 48 \<le> c \<and> c \<le> 57"

definition LABEL_REGEX_match :: "pystr \<Rightarrow> bool" where
  "LABEL_REGEX_match s =
     list_ex (\<lambda>p. case match_ci p (lstrip s) of
                    None \<Rightarrow> False
                  | Some r \<Rightarrow> (case dropWhile is_space r of [] \<Rightarrow> False | c # _ \<Rightarrow> is_digit c))
       label_words"

text \<open>Python's \<^verbatim>\<open>round\<close> on a float: to the nearest integer, a half to the even one.\<close>

definition py_round :: "real \<Rightarrow> int" where
  "py_round x =
     (let f = \<lfloor>x\<rfloor>; d = x - of_int f
      in if d < 1 / 2 then f else if d > 1 / 2 then f + 1 else if even f then f else f + 1)"

text \<open>
  The loop of \<^verbatim>\<open>_join_words_linewise\<close> after its first word: \<open>lines\<close>, the texts of
  \<open>current_line\<close>, \<open>last_top\<close> and \<open>last_x1\<close> are the loop variables.
\<close>

fun join_loop :: "token list \<Rightarrow> pystr list \<Rightarrow> pystr list \<Rightarrow> real \<Rightarrow> real \<Rightarrow> pystr list \<times> pystr list" where
  "join_loop [] lines current_line last_top last_x1 = (lines, current_line)"
| "join_loop (w # ws) lines current_line last_top last_x1 =
     (if \<bar>w_top w - last_top\<bar> \<le> WORD_JOIN_GAP
      then join_loop ws lines
             (current_line @ (if w_x0 w - last_x1 > WORD_JOIN_GAP then [[32]] else []) @ [w_text w])
             last_top (w_x1 w)
      else join_loop ws (lines @ [concat current_line]) [w_text w] (w_top w) (w_x1 w))"

definition join_words_linewise :: "token list \<Rightarrow> pystr" where
  "join_words_linewise ws =
     (case sort_key (\<lambda>w. (real_of_int (py_round (w_top w / 5) * 5), w_x0 w)) ws of
        [] \<Rightarrow> []
      | w # rest \<Rightarrow>
          (case join_loop rest [] [w_text w] (w_top w) (w_x1 w) of
             (lines, current_line) \<Rightarrow>
               (let lines' = (if current_line \<noteq> [] then lines @ [concat current_line] else lines)
                in join [32] (map strip (filter (\<lambda>s. strip s \<noteq> []) lines')))))"

fun max_by :: "('a \<Rightarrow> real) \<Rightarrow> 'a \<Rightarrow> 'a list \<Rightarrow> 'a" where
  "max_by f best [] = best"
| "max_by f best (x # xs) = (if f x > f best then max_by f x xs else max_by f best xs)"

fun score :: "pystr \<times> real \<Rightarrow> real" where
  "score (text, dst) =
     (let has_label = (if LABEL_REGEX_match text then 1 else 0);
          length_penalty = real_of_int (max 0 (int (length text) - 260)) * 0.002
      in (has_label * 10) - (dst * 0.01) - length_penalty)"

text \<open>\<^verbatim>\<open>max(candidates, key=score)\<close> keeps the first of several maximal elements.\<close>

fun pick_best_caption :: "(pystr \<times> real) list \<Rightarrow> pystr" where
  "pick_best_caption [] = []"
| "pick_best_caption (c # cs) = fst (max_by score c cs)"

text \<open>
  The first piece of \<^verbatim>\<open>re.split\<close> with \<^verbatim>\<open>maxsplit=1\<close>: the text up to the first white
  space that follows one of the seven closing marks of the pattern, which are U+3002,
  U+FF0E, the full stop, the exclamation mark, the question mark, the semicolon and U+FF1B.
\<close>

definition is_sentence_end :: "nat \<Rightarrow> bool" where
  "is_sentence_end c \<longleftrightarrow> c \<in> {12290, 65294, 46, 33, 63, 59, 65307}"

fun split_first :: "pystr \<Rightarrow> pystr" where
  "split_first (c # d # rest) =
     (if is_sentence_end c \<and> is_space d then [c] else c # split_first (d # rest))"
| "split_first s = s"

definition truncate_caption_like :: "pystr \<Rightarrow> pystr" where
  "truncate_caption_like text = (if text = [] then [] else strip (split_first text))"

text \<open>\<^verbatim>\<open>re.sub(r'\s+', ' ', s)\<close>\<close>

function collapse_spaces :: "pystr \<Rightarrow> pystr" where
  "collapse_spaces [] = []"
| "collapse_spaces (c # cs) =
     (if is_space c then 32 # collapse_spaces (dropWhile is_space cs) else c # collapse_spaces cs)"
  by pat_completeness auto
termination
  by (relation "measure length") (auto simp: length_dropWhile_le less_Suc_eq_le)

record page =
  pg_width :: real
  pg_height :: real
  pg_bbox :: bbox
  pg_words :: "token list"
  pg_images :: "bbox list"
  pg_lines :: "bbox list"
  pg_rects :: "bbox list"
  pg_curves :: "bbox list"

datatype side = Bottom | Top | Right | Left

text \<open>The dict \<open>regions\<close>; its keys are visited in the order they were written.\<close>

definition sides :: "side list" where
  "sides = [Bottom, Top, Right, Left]"

fun region :: "real \<Rightarrow> real \<Rightarrow> bbox \<Rightarrow> side \<Rightarrow> bbox" where
  "region page_w page_h (x0, y0, x1, y1) Bottom = (x0, y1, x1, min page_h (y1 + 3 * SEARCH_MARGIN))"
| "region page_w page_h (x0, y0, x1, y1) Top = (x0, max 0 (y0 - 3 * SEARCH_MARGIN), x1, y0)"
| "region page_w page_h (x0, y0, x1, y1) Right =
     (x1, max 0 (y0 - SEARCH_MARGIN), min page_w (x1 + 3 * SEARCH_MARGIN), min page_h (y1 + SEARCH_MARGIN))"
| "region page_w page_h (x0, y0, x1, y1) Left =
     (max 0 (x0 - 3 * SEARCH_MARGIN), max 0 (y0 - SEARCH_MARGIN), x0, min page_h (y1 + SEARCH_MARGIN))"

definition vertical :: "side \<Rightarrow> bool" where
  "vertical sd \<longleftrightarrow> sd = Bottom \<or> sd = Top"

text \<open>The scan along the axis after the first word; it stops at the first large gap.\<close>

fun scan_lines :: "(token \<Rightarrow> real) \<Rightarrow> token list \<Rightarrow> real \<Rightarrow> pystr list" where
  "scan_lines axis [] last_axis = []"
| "scan_lines axis (w # ws) last_axis =
     (if \<bar>axis w - last_axis\<bar> > LINE_GAP_STOP then []
      else w_text w # scan_lines axis ws (axis w))"

fun side_dist :: "side \<Rightarrow> bbox \<Rightarrow> bbox \<Rightarrow> real" where
  "side_dist Bottom (x0, y0, x1, y1) (r0, r1, r2, r3) = r1 - y1"
| "side_dist Top (x0, y0, x1, y1) (r0, r1, r2, r3) = y0 - r3"
| "side_dist Right (x0, y0, x1, y1) (r0, r1, r2, r3) = r0 - x1"
| "side_dist Left (x0, y0, x1, y1) (r0, r1, r2, r3) = x0 - r2"

text \<open>One round of the loop over the sides: the candidate it appends, if any.\<close>

definition side_candidate :: "page \<Rightarrow> token list \<Rightarrow> bbox \<Rightarrow> side \<Rightarrow> (pystr \<times> real) option" where
  "side_candidate pg ws bbox sd =
     (let rect = region (pg_width pg) (pg_height pg) bbox sd;
          local_words = words_in_rect ws rect
      in if local_words = [] then None
         else let text_full = join_words_linewise local_words
           in if text_full = [] \<or> length text_full < CAPTION_MIN_LEN then None
              else let axis_sorted =
                         (if vertical sd then sort_key (\<lambda>w. (w_top w, w_x0 w)) local_words
                          else sort_key (\<lambda>w. (w_x0 w, w_top w)) local_words);
                       axis = (if vertical sd then w_top else w_x0);
                       lines = (case axis_sorted of [] \<Rightarrow> []
                                | w # rest \<Rightarrow> w_text w # scan_lines axis rest (axis w));
                       text_candidate = strip (collapse_spaces (join [32] lines))
                   in if length text_candidate \<ge> CAPTION_MIN_LEN
                      then Some (text_candidate, max 0 (side_dist sd bbox rect))
                      else None)"

definition caption_candidates :: "page \<Rightarrow> token list \<Rightarrow> bbox \<Rightarrow> (pystr \<times> real) list" where
  "caption_candidates pg ws bbox = List.map_filter (side_candidate pg ws bbox) sides"

definition find_caption_four_directions :: "page \<Rightarrow> token list \<Rightarrow> bbox \<Rightarrow> pystr" where
  "find_caption_four_directions pg ws bbox =
     (let best = pick_best_caption (caption_candidates pg ws bbox)
      in if best \<noteq> [] then truncate_caption_like best else best)"

subsection \<open>Graphic clusterer\<close>

text \<open>
  The inner loop of \<^verbatim>\<open>_gather_graphic_boxes\<close> over the clusters: \<open>Some\<close> of the
  updated list when a cluster took the primitive (the first one that is near enough),
  \<open>None\<close> when the loop ended with \<^verbatim>\<open>merged\<close> false.
\<close>

fun cluster_absorb :: "bbox \<Rightarrow> stats \<Rightarrow> (bbox \<times> stats) list \<Rightarrow> (bbox \<times> stats) list option" where
  "cluster_absorb bbox stat [] = None"
| "cluster_absorb bbox stat ((cb, cstat) # clusters) =
     (if bbox_dist (bbox_expand bbox MERGE_DIST) cb \<le> MERGE_DIST
      then Some ((bbox_union cb bbox,
                  \<lparr>n_lines = n_lines cstat + n_lines stat,
                   n_rects = n_rects cstat + n_rects stat,
                   n_curves = n_curves cstat + n_curves stat\<rparr>) # clusters)
      else map_option ((#) (cb, cstat)) (cluster_absorb bbox stat clusters))"

definition add_primitive :: "(bbox \<times> stats) list \<Rightarrow> bbox \<times> stats \<Rightarrow> (bbox \<times> stats) list" where
  "add_primitive clusters p =
     (case cluster_absorb (fst p) (snd p) clusters of
        Some clusters' \<Rightarrow> clusters'
      | None \<Rightarrow> clusters @ [p])"

definition gather_graphic_boxes :: "page \<Rightarrow> (bbox \<times> stats) list" where
  "gather_graphic_boxes pg =
     (let primitives =
            map (\<lambda>b. (b, \<lparr>n_lines = 1, n_rects = 0, n_curves = 0\<rparr>)) (pg_lines pg) @
            map (\<lambda>b. (b, \<lparr>n_lines = 0, n_rects = 1, n_curves = 0\<rparr>)) (pg_rects pg) @
            map (\<lambda>b. (b, \<lparr>n_lines = 0, n_rects = 0, n_curves = 1\<rparr>)) (pg_curves pg);
          clusters = foldl add_primitive [] primitives
      in filter (\<lambda>(cb, st). (case cb of (c0, c1, c2, c3) \<Rightarrow>
                   c2 - c0 \<ge> MIN_GRAPHIC_W \<and> c3 - c1 \<ge> MIN_GRAPHIC_H)) clusters)"

subsection \<open>Candidate merger\<close>

fun iou :: "bbox \<Rightarrow> bbox \<Rightarrow> real" where
  "iou (b0, b1, b2, b3) (cb0, cb1, cb2, cb3) =
     (let inter_x0 = max b0 cb0; inter_y0 = max b1 cb1;
          inter_x1 = min b2 cb2; inter_y1 = min b3 cb3;
          inter = max 0 (inter_x1 - inter_x0) * max 0 (inter_y1 - inter_y0);
          uni = bbox_area (b0, b1, b2, b3) + bbox_area (cb0, cb1, cb2, cb3) - inter + 1 / 1000000
      in inter / uni)"

definition should_merge :: "bbox \<Rightarrow> bbox \<Rightarrow> bool" where
  "should_merge b cb \<longleftrightarrow> iou b cb > 0.3 \<or> bbox_dist b cb < 10"

text \<open>
  The inner loop over \<open>candidates\<close>: the first candidate that the box is compatible
  with is replaced by its union with the box, and the loop breaks.
\<close>

fun absorb :: "bbox \<Rightarrow> bbox list \<Rightarrow> bbox list option" where
  "absorb b [] = None"
| "absorb b (cb # candidates) =
     (if should_merge b cb then Some (bbox_union cb b # candidates)
      else map_option ((#) cb) (absorb b candidates))"

definition add_box :: "bbox list \<Rightarrow> bbox \<Rightarrow> bbox list" where
  "add_box candidates b =
     (case absorb b candidates of Some candidates' \<Rightarrow> candidates' | None \<Rightarrow> candidates @ [b])"

definition merge_candidates :: "bbox list \<Rightarrow> bbox list" where
  "merge_candidates boxes = foldl add_box [] boxes"


subsection \<open>Per-candidate export\<close>

fun clip_to_page :: "bbox \<Rightarrow> bbox \<Rightarrow> bbox option" where
  "clip_to_page (x0, y0, x1, y1) (px0, py0, px1, py1) =
     (let x0' = max px0 (min x0 px1);
          y0' = max py0 (min y0 py1);
          x1' = max px0 (min x1 px1);
          y1' = max py0 (min y1 py1)
      in if x1' - x0' \<le> 1 \<or> y1' - y0' \<le> 1 then None else Some (x0', y0', x1', y1'))"

text \<open>
  The difference of two image hashes is the number of bit positions in which they differ.
\<close>

definition hamming :: "64 word \<Rightarrow> 64 word \<Rightarrow> nat" where
  "hamming a b = length (filter (bit (a XOR b)) [0..<64])"

fun find_stats_hint :: "bbox \<Rightarrow> (bbox \<times> stats) list \<Rightarrow> stats option" where
  "find_stats_hint clipped [] = None"
| "find_stats_hint clipped ((g, st) # gs) =
     (if bbox_dist clipped g < 5 then Some st else find_stats_hint clipped gs)"

datatype error = OpenError | DecodeError | RenderError | SaveError | TextError | WriteError

text \<open>
  The record appended to \<open>figures\<close>. Its fields \<^verbatim>\<open>figure_id\<close>, \<^verbatim>\<open>origin_id\<close> and
  \<^verbatim>\<open>image_path\<close> are strings formatted from the caption, the page number and the index;
  no filter reads them and they are left out. \<open>fig_contexts\<close> is the key
  \<^verbatim>\<open>contexts\<close> that \<^verbatim>\<open>find_contexts\<close> sets later; it is empty until then.
\<close>

record figure =
  fig_page :: nat
  fig_caption :: pystr
  fig_width :: int
  fig_height :: int
  fig_phash :: "64 word"
  fig_contexts :: "pystr list"

text \<open>
  The steps of the loop body that call a collaborator or decide a filter. The state of
  the export loop records them in the order in which the body reaches them, next to the
  list \<open>figures\<close> and the ledger \<open>kept_hashes\<close>.
\<close>

datatype stage = Clip | CaptionSearch | Render | SizeFilter | Classify | Dedup | Save | Emit

record pstate =
  figures :: "figure list"
  kept_hashes :: "64 word list"
  calls :: "(nat \<times> nat \<times> stage) list"

definition mark :: "nat \<Rightarrow> nat \<Rightarrow> stage \<Rightarrow> pstate \<Rightarrow> pstate" where
  "mark page_num idx s st = st\<lparr>calls := calls st @ [(page_num, idx, s)]\<rparr>"

text \<open>
  The body of the loop over the candidates of a page. \<open>render\<close> is
  \<^verbatim>\<open>page.within_bbox(clipped).to_image(resolution=180).original\<close> and \<open>save\<close> is
  \<^verbatim>\<open>pil_img.save\<close>; either may raise, and the \<^verbatim>\<open>except\<close> clause of the body then
  leaves the candidate.
\<close>

definition process_candidate ::
  "(bbox \<Rightarrow> error + image) \<Rightarrow> (nat \<Rightarrow> nat \<Rightarrow> error + unit) \<Rightarrow> page \<Rightarrow> (bbox \<times> stats) list \<Rightarrow>
   nat \<Rightarrow> pstate \<Rightarrow> nat \<times> bbox \<Rightarrow> pstate" where
  "process_candidate render save pg graphic_boxes_stats page_num st0 c =
     (let idx = fst c; bbox = snd c; st1 = mark page_num idx Clip st0
      in case clip_to_page bbox (pg_bbox pg) of
           None \<Rightarrow> st1
         | Some clipped \<Rightarrow>
             let caption = find_caption_four_directions pg (pg_words pg) clipped;
                 st2 = mark page_num idx Render (mark page_num idx CaptionSearch st1)
             in case render clipped of
                  Inl e \<Rightarrow> st2
                | Inr pil_img \<Rightarrow>
                    let st3 = mark page_num idx SizeFilter st2
                    in if img_width pil_img < MIN_IMG_WIDTH \<or> img_height pil_img < MIN_IMG_HEIGHT
                       then st3
                       else
                         let stats_hint = find_stats_hint clipped graphic_boxes_stats;
                             scores = text_and_edge_score (pg_words pg) clipped pil_img;
                             st4 = mark page_num idx Classify st3
                         in if looks_like_plain_text (fst scores) (snd scores) stats_hint
                            then st4
                            else
                              let cur_hash = phash pil_img;
                                  st5 = mark page_num idx Dedup st4
                              in if list_ex (\<lambda>h. hamming cur_hash h \<le> HASH_THRESHOLD) (kept_hashes st5)
                                 then st5
                                 else
                                   let st6 = mark page_num idx Save st5
                                   in case save page_num idx of
                                        Inl e \<Rightarrow> st6
                                      | Inr u \<Rightarrow>
                                          (mark page_num idx Emit st6)
                                            \<lparr>kept_hashes := kept_hashes st6 @ [cur_hash],
                                             figures := figures st6 @
                                               [\<lparr>fig_page = page_num, fig_caption = caption,
                                                 fig_width = img_width pil_img,
                                                 fig_height = img_height pil_img,
                                                 fig_phash = cur_hash, fig_contexts = []\<rparr>]\<rparr>)"

text \<open>\<^verbatim>\<open>enumerate(xs, start=1)\<close>\<close>

definition enumerate1 :: "'a list \<Rightarrow> (nat \<times> 'a) list" where
  "enumerate1 xs = enumerate 1 xs"

text \<open>The body of the loop over the pages.\<close>

definition process_page ::
  "(nat \<Rightarrow> bbox \<Rightarrow> error + image) \<Rightarrow> (nat \<Rightarrow> nat \<Rightarrow> error + unit) \<Rightarrow> pstate \<Rightarrow> nat \<times> page \<Rightarrow> pstate" where
  "process_page render save st p =
     (let page_num = fst p; pg = snd p;
          raster_boxes = pg_images pg;
          graphic_boxes_stats = gather_graphic_boxes pg;
          graphic_boxes = map fst graphic_boxes_stats;
          candidates = merge_candidates (raster_boxes @ graphic_boxes)
      in foldl (process_candidate (render page_num) save pg graphic_boxes_stats page_num) st
           (enumerate1 candidates))"

text \<open>
  A document as the libraries and the file system present it, in the order in which
  \<^verbatim>\<open>process_pdf\<close> meets them: \<open>pdf_makedirs\<close> is the outcome of creating the output
  directory; \<open>pdf_reader\<close> is what the text reader gives (it fails to open the file, or
  gives for each page its text or an exception); \<open>pdf_plumber\<close> is what the page decoder
  gives (it fails to open the file, or gives for each page either its words, images and
  vector primitives or the exception that reading them raises); \<open>pdf_render\<close> and
  \<open>pdf_save\<close> are the outcome of rendering a region of a page and of saving the image of
  a candidate; \<open>pdf_write\<close> is the outcome of writing the JSON file.
\<close>

record pdf_file =
  pdf_makedirs :: "error + unit"
  pdf_reader :: "error + (error + pystr) list"
  pdf_plumber :: "error + (error + page) list"
  pdf_render :: "nat \<Rightarrow> bbox \<Rightarrow> error + image"
  pdf_save :: "nat \<Rightarrow> nat \<Rightarrow> error + unit"
  pdf_write :: "error + unit"

definition init_state :: pstate where
  "init_state = \<lparr>figures = [], kept_hashes = [], calls = []\<rparr>"

text \<open>The loop over the pages when every page is read without an exception.\<close>

definition run_pages :: "pdf_file \<Rightarrow> page list \<Rightarrow> pstate" where
  "run_pages pdf pages = foldl (process_page (pdf_render pdf) (pdf_save pdf)) init_state (enumerate1 pages)"

text \<open>
  The loop over the pages of the opened document. Reading the words, the images and the
  vector primitives of a page comes before the \<^verbatim>\<open>try\<close> of the candidate loop: an
  exception there leaves the function, and the records collected so far are not returned.
\<close>

fun page_loop ::
  "(nat \<Rightarrow> bbox \<Rightarrow> error + image) \<Rightarrow> (nat \<Rightarrow> nat \<Rightarrow> error + unit) \<Rightarrow> pstate \<Rightarrow>
   (nat \<times> (error + page)) list \<Rightarrow> error + pstate" where
  "page_loop render save st [] = Inr st"
| "page_loop render save st ((page_num, Inl e) # rest) = Inl e"
| "page_loop render save st ((page_num, Inr pg) # rest) =
     page_loop render save (process_page render save st (page_num, pg)) rest"

definition extract_images_and_captions :: "pdf_file \<Rightarrow> error + figure list" where
  "extract_images_and_captions pdf =
     (case pdf_plumber pdf of
        Inl e \<Rightarrow> Inl e
      | Inr pages \<Rightarrow>
          (case page_loop (pdf_render pdf) (pdf_save pdf) init_state (enumerate1 pages) of
             Inl e \<Rightarrow> Inl e
           | Inr st \<Rightarrow> Inr (figures st)))"

subsection \<open>Context locator\<close>

text \<open>
  The window of a match at sentence index \<open>i\<close> in a document of \<open>n_total\<close> sentences,
  with the three assignments of the source.
\<close>

definition window :: "int \<Rightarrow> int \<Rightarrow> int \<times> int" where
  "window n_total i =
     (let start = max 0 (i - 2);
          end1 = min n_total (i + 3);
          end2 = (if end1 - start < 5 then min n_total (end1 + (5 - (end1 - start))) else end1)
      in (start, end2))"

text \<open>
  \<open>hit\<close> says whether a sentence matches one of the two label patterns built from the
  number of the figure. The ranges are appended in the order of the sentences.
\<close>

definition ref_ranges :: "(pystr \<Rightarrow> bool) \<Rightarrow> pystr list \<Rightarrow> (int \<times> int) list" where
  "ref_ranges hit sentences =
     map (\<lambda>p. window (int (length sentences)) (int (fst p)))
       (filter (\<lambda>p. hit (snd p)) (enumerate 0 sentences))"

text \<open>The body of the loop over \<^verbatim>\<open>sorted(ranges)\<close>.\<close>

fun merge_range :: "(int \<times> int) list \<Rightarrow> int \<times> int \<Rightarrow> (int \<times> int) list" where
  "merge_range merged (cs, ce) =
     (if merged = [] then [(cs, ce)]
      else case last merged of (ps, pe) \<Rightarrow>
        if cs \<le> pe then butlast merged @ [(ps, max pe ce)] else merged @ [(cs, ce)])"

definition merge_ranges :: "(int \<times> int) list \<Rightarrow> (int \<times> int) list" where
  "merge_ranges ranges = foldl merge_range [] (sort ranges)"

text \<open>The slice \<^verbatim>\<open>xs[s:e]\<close>; a negative bound counts from the end.\<close>

definition py_slice :: "int \<Rightarrow> int \<Rightarrow> 'a list \<Rightarrow> 'a list" where
  "py_slice s e xs =
     (let n = int (length xs);
          s' = (if s < 0 then max 0 (s + n) else min s n);
          e' = (if e < 0 then max 0 (e + n) else min e n)
      in take (nat (e' - s')) (drop (nat s') xs))"

definition contexts_of :: "pystr list \<Rightarrow> (int \<times> int) list \<Rightarrow> pystr list" where
  "contexts_of sentences merged = map (\<lambda>r. join [32] (py_slice (fst r) (snd r) sentences)) merged"

text \<open>
  \<^verbatim>\<open>find_contexts\<close>. The regular expressions are parameters: \<open>split_sentences\<close> is the
  sentence splitter, \<open>first_num fig\<close> the first number found in the identifier and caption
  of the figure (\<open>None\<close> when \<^verbatim>\<open>nums\<close> is empty), and \<open>mentions num s\<close> says
  whether one of the two patterns built from \<open>num\<close> is found in the sentence \<open>s\<close>.
\<close>

definition find_contexts ::
  "(pystr \<Rightarrow> pystr list) \<Rightarrow> (figure \<Rightarrow> pystr option) \<Rightarrow> (pystr \<Rightarrow> pystr \<Rightarrow> bool) \<Rightarrow>
   figure list \<Rightarrow> pystr \<Rightarrow> figure list" where
  "find_contexts split_sentences first_num mentions figs full_text =
     (let sentences = split_sentences full_text
      in map (\<lambda>fig.
           let ranges = (case first_num fig of
                           None \<Rightarrow> []
                         | Some num \<Rightarrow> ref_ranges (mentions num) sentences);
               merged = merge_ranges ranges
           in fig\<lparr>fig_contexts := contexts_of sentences merged\<rparr>) figs)"

subsection \<open>Orchestration\<close>

definition extract_text :: "pdf_file \<Rightarrow> error + (pystr list \<times> pystr)" where
  "extract_text pdf =
     (case pdf_reader pdf of
        Inl e \<Rightarrow> Inl e
      | Inr pages \<Rightarrow>
          (let text_pages = map (\<lambda>p. case p of Inl e \<Rightarrow> [] | Inr t \<Rightarrow> t) pages
           in Inr (text_pages, join [10] text_pages)))"

text \<open>
  \<^verbatim>\<open>process_pdf\<close>: the value \<open>Inr figs\<close> is the list of records written to the JSON
  file of the document, \<open>Inl e\<close> an exception that leaves the function. No step of the
  function has a handler.
\<close>

definition process_pdf ::
  "(pystr \<Rightarrow> pystr list) \<Rightarrow> (figure \<Rightarrow> pystr option) \<Rightarrow> (pystr \<Rightarrow> pystr \<Rightarrow> bool) \<Rightarrow>
   pdf_file \<Rightarrow> error + figure list" where
  "process_pdf split_sentences first_num mentions pdf =
     (case pdf_makedirs pdf of
        Inl e \<Rightarrow> Inl e
      | Inr u \<Rightarrow>
          (case extract_text pdf of
             Inl e \<Rightarrow> Inl e
           | Inr texts \<Rightarrow>
               (case extract_images_and_captions pdf of
                  Inl e \<Rightarrow> Inl e
                | Inr figs \<Rightarrow>
                    (let figs' = find_contexts split_sentences first_num mentions figs (snd texts)
                     in case pdf_write pdf of
                          Inl e \<Rightarrow> Inl e
                        | Inr u' \<Rightarrow> Inr figs'))))"

text \<open>
  \<^verbatim>\<open>f.lower().endswith('.pdf')\<close>: only the ASCII capitals lower to the letters of the
  suffix.
\<close>

definition ascii_lower :: "nat \<Rightarrow> nat" where
  "ascii_lower c = (if 65 \<le> c \<and> c \<le> 90 then c + 32 else c)"

definition is_pdf_name :: "pystr \<Rightarrow> bool" where
  "is_pdf_name f \<longleftrightarrow> length f \<ge> 4 \<and> map ascii_lower (drop (length f - 4) f) = ascii ''.pdf''"

text \<open>
  The loop of the main block over the directory listing. There is no handler around the
  call of \<^verbatim>\<open>process_pdf\<close>: an exception ends the loop. The result is the list of the
  documents written so far, each with its file name, and the exception if there was one.
\<close>

fun main_loop ::
  "(pystr \<Rightarrow> pystr list) \<Rightarrow> (figure \<Rightarrow> pystr option) \<Rightarrow> (pystr \<Rightarrow> pystr \<Rightarrow> bool) \<Rightarrow>
   (pystr \<times> pdf_file) list \<Rightarrow> (pystr \<times> figure list) list \<Rightarrow>
   (pystr \<times> figure list) list \<times> error option" where
  "main_loop sp fn mn [] written = (written, None)"
| "main_loop sp fn mn ((f, pdf) # rest) written =
     (if is_pdf_name f
      then (case process_pdf sp fn mn pdf of
              Inl e \<Rightarrow> (written, Some e)
            | Inr figs \<Rightarrow> main_loop sp fn mn rest (written @ [(f, figs)]))
      else main_loop sp fn mn rest written)"

subsection \<open>Predicates used in the statements\<close>

definition far_apart :: "64 word list \<Rightarrow> bool" where
  "far_apart hs = sorted_wrt (\<lambda>a b. hamming a b > HASH_THRESHOLD) hs"

definition ledger_inv :: "pstate \<Rightarrow> bool" where
  "ledger_inv st \<longleftrightarrow> map fig_phash (figures st) = kept_hashes st \<and> far_apart (kept_hashes st)"

definition size_ok :: "figure \<Rightarrow> bool" where
  "size_ok f \<longleftrightarrow> fig_width f \<ge> MIN_IMG_WIDTH \<and> fig_height f \<ge> MIN_IMG_HEIGHT"

definition gap_sorted :: "(int \<times> int) list \<Rightarrow> bool" where
  "gap_sorted rs = sorted_wrt (\<lambda>a b. snd a < fst b) rs"

definition covered :: "(int \<times> int) list \<Rightarrow> int set" where
  "covered rs = {k. \<exists>r\<in>set rs. fst r \<le> k \<and> k < snd r}"

text \<open>A side is earlier than another when the loop over the regions visits it first.\<close>

definition earlier :: "side \<Rightarrow> side \<Rightarrow> bool" where
  "earlier a b \<longleftrightarrow> a \<in> set (takeWhile (\<lambda>x. x \<noteq> b) sides)"



subsection \<open>A small document\<close>

text \<open>
  A page of 600 by 800 units with one raster image and no text or vector primitives, and a
  page whose only image is 60 by 36 units, which renders to 150 by 90 pixels. The
  document has three copies of the first page; the hashes of the three renderings are
  0, 255 and 1, so that the third is within the threshold of the first.
\<close>

definition demo_page :: page where
  "demo_page = \<lparr>pg_width = 600, pg_height = 800, pg_bbox = (0, 0, 600, 800), pg_words = [],
     pg_images = [(100, 100, 400, 300)], pg_lines = [], pg_rects = [], pg_curves = []\<rparr>"

definition demo_small_page :: page where
  "demo_small_page = \<lparr>pg_width = 600, pg_height = 800, pg_bbox = (0, 0, 600, 800), pg_words = [],
     pg_images = [(100, 100, 160, 136)], pg_lines = [], pg_rects = [], pg_curves = []\<rparr>"

definition demo_hash :: "nat \<Rightarrow> 64 word" where
  "demo_hash n = (if n = 1 then 0 else if n = 2 then 255 else 1)"

definition demo_image :: "nat \<Rightarrow> image" where
  "demo_image n = \<lparr>img_width = 750, img_height = 500, mean_edge = 0.2, phash = demo_hash n\<rparr>"

definition demo_small_image :: image where
  "demo_small_image = \<lparr>img_width = 150, img_height = 90, mean_edge = 0.2, phash = 1023\<rparr>"

definition demo_render :: "nat \<Rightarrow> bbox \<Rightarrow> error + image" where
  "demo_render n b =
     (if b = (100, 100, 160, 136) then Inr demo_small_image else Inr (demo_image n))"

definition demo_save :: "nat \<Rightarrow> nat \<Rightarrow> error + unit" where
  "demo_save n i = Inr ()"

definition demo_pdf :: pdf_file where
  "demo_pdf = \<lparr>pdf_makedirs = Inr (), pdf_reader = Inr [Inr [], Inr [], Inr []],
     pdf_plumber = Inr [Inr demo_page, Inr demo_page, Inr demo_page],
     pdf_render = demo_render, pdf_save = demo_save, pdf_write = Inr ()\<rparr>"

definition demo_fig :: "nat \<Rightarrow> figure" where
  "demo_fig n = \<lparr>fig_page = n, fig_caption = [], fig_width = 750, fig_height = 500,
     fig_phash = demo_hash n, fig_contexts = []\<rparr>"

text \<open>
  A text of thirteen one-letter sentences; the figure number is the letter X, which the
  sixth and the last sentence mention.
\<close>

definition demo_split :: "pystr \<Rightarrow> pystr list" where
  "demo_split t = map (\<lambda>c. [c]) t"

definition demo_first_num :: "figure \<Rightarrow> pystr option" where
  "demo_first_num fig = Some (ascii ''X'')"

definition demo_mentions :: "pystr \<Rightarrow> pystr \<Rightarrow> bool" where
  "demo_mentions num s \<longleftrightarrow> s = num"

definition demo_text :: pystr where
  "demo_text = ascii ''abcdeXghijklX''"

text \<open>
  The same document when the text reader cannot open its file, when the page decoder
  cannot open it, and when the second page cannot be decoded.
\<close>

definition demo_broken_pdf :: pdf_file where
  "demo_broken_pdf = \<lparr>pdf_makedirs = Inr (), pdf_reader = Inl OpenError,
     pdf_plumber = Inr [Inr demo_page, Inr demo_page, Inr demo_page],
     pdf_render = demo_render, pdf_save = demo_save, pdf_write = Inr ()\<rparr>"

definition demo_unplumbed_pdf :: pdf_file where
  "demo_unplumbed_pdf = \<lparr>pdf_makedirs = Inr (), pdf_reader = Inr [Inr [], Inr [], Inr []],
     pdf_plumber = Inl OpenError,
     pdf_render = demo_render, pdf_save = demo_save, pdf_write = Inr ()\<rparr>"

definition demo_undecoded_pdf :: pdf_file where
  "demo_undecoded_pdf = \<lparr>pdf_makedirs = Inr (), pdf_reader = Inr [Inr [], Inr [], Inr []],
     pdf_plumber = Inr [Inr demo_page, Inl DecodeError, Inr demo_page],
     pdf_render = demo_render, pdf_save = demo_save, pdf_write = Inr ()\<rparr>"

text \<open>
  Words for the classifier in a box of 100 by 100 units: two lines of text of 100 by 30
  units inside the box and a word that sticks out of it on the right, which is not
  counted, so that the ratio is 0.6; and two words that each fill the box, so that the
  ratio is capped. The rendering of the box has a mean edge value of 0.05.
\<close>

definition demo_body_words :: "token list" where
  "demo_body_words =
     [\<lparr>w_text = ascii ''first'', w_x0 = 0, w_x1 = 100, w_top = 0, w_bottom = 30\<rparr>,
      \<lparr>w_text = ascii ''second'', w_x0 = 0, w_x1 = 100, w_top = 40, w_bottom = 70\<rparr>,
      \<lparr>w_text = ascii ''outside'', w_x0 = 50, w_x1 = 150, w_top = 80, w_bottom = 90\<rparr>]"

definition demo_dense_words :: "token list" where
  "demo_dense_words =
     [\<lparr>w_text = ascii ''one'', w_x0 = 0, w_x1 = 100, w_top = 0, w_bottom = 100\<rparr>,
      \<lparr>w_text = ascii ''two'', w_x0 = 0, w_x1 = 100, w_top = 0, w_bottom = 100\<rparr>]"

definition demo_flat_image :: image where
  "demo_flat_image = \<lparr>img_width = 250, img_height = 250, mean_edge = 0.05, phash = 0\<rparr>"

text \<open>
  Caption strings: a labelled one of 5306 characters, an unlabelled one, and a short
  labelled one.
\<close>

definition demo_long_caption :: pystr where
  "demo_long_caption = ascii ''Fig 1 '' @ replicate 5300 120"

definition demo_plain_caption :: pystr where
  "demo_plain_caption = ascii ''plain text''"

definition demo_short_caption :: pystr where
  "demo_short_caption = ascii ''Fig. 2 Overview''"

text \<open>
  Words around the image of the first page: one line of text above it and one below, both
  without a label; and a caption line of two words below it.
\<close>

definition demo_tie_words :: "token list" where
  "demo_tie_words =
     [\<lparr>w_text = ascii ''toptextabc'', w_x0 = 100, w_x1 = 160, w_top = 80, w_bottom = 90\<rparr>,
      \<lparr>w_text = ascii ''bottomtext'', w_x0 = 100, w_x1 = 160, w_top = 305, w_bottom = 315\<rparr>]"





section \<open>Properties\<close>

subsection \<open>Content classifier\<close>

lemma foldl_add_sum_list:
  fixes f :: "'a \<Rightarrow> real"
  shows "foldl (\<lambda>acc w. acc + f w) a xs = a + sum_list (map f xs)"
  by (induction xs arbitrary: a) simp_all

lemma text_ratio_capped: "fst (text_and_edge_score ws b img) \<le> 1"
  by (cases b) (simp add: Let_def)

lemma text_ratio_value:
  "text_and_edge_score ws (bx0, by0, bx1, by1) img =
     (min 1 (sum_list (map (\<lambda>w. max 0 (w_x1 w - w_x0 w) * max 0 (w_bottom w - w_top w))
                (filter (\<lambda>w. bx0 \<le> w_x0 w \<and> w_x1 w \<le> bx1 \<and> by0 \<le> w_top w \<and> w_bottom w \<le> by1) ws))
             / max 1 ((bx1 - bx0) * (by1 - by0))),
      mean_edge img)"
  by (simp add: Let_def foldl_add_sum_list)

text \<open>
  Claim C7. The text-coverage ratio of a candidate is the sum of the areas of the words
  that lie fully inside its box, divided by the area of the box (taken as at least 1), and
  capped at 1; the edge density is the mean edge value of the rendered image. The
  classifier rejects the candidate as plain text exactly when this ratio exceeds 0.55 and
  the edge density is below 0.10, unless the statistics of the matching graphic cluster
  show at least 6 lines and curves together or at least 3 rectangles; then the candidate
  is kept.
\<close>

theorem looks_like_plain_text_exactly:
  "(case text_and_edge_score ws (bx0, by0, bx1, by1) img of (text_ratio, edge) \<Rightarrow>
      text_ratio =
        min 1 (sum_list (map (\<lambda>w. max 0 (w_x1 w - w_x0 w) * max 0 (w_bottom w - w_top w))
                 (filter (\<lambda>w. bx0 \<le> w_x0 w \<and> w_x1 w \<le> bx1 \<and> by0 \<le> w_top w \<and> w_bottom w \<le> by1) ws))
               / max 1 ((bx1 - bx0) * (by1 - by0))) \<and>
      text_ratio \<le> 1 \<and> edge = mean_edge img \<and>
      (looks_like_plain_text text_ratio edge hint \<longleftrightarrow>
         text_ratio > 0.55 \<and> edge < 0.10 \<and>
         \<not> (case hint of None \<Rightarrow> False
             | Some st \<Rightarrow> n_lines st + n_curves st \<ge> 6 \<or> n_rects st \<ge> 3)))"
proof -
  define tr where "tr =
        min 1 (sum_list (map (\<lambda>w. max 0 (w_x1 w - w_x0 w) * max 0 (w_bottom w - w_top w))
                 (filter (\<lambda>w. bx0 \<le> w_x0 w \<and> w_x1 w \<le> bx1 \<and> by0 \<le> w_top w \<and> w_bottom w \<le> by1) ws))
               / max 1 ((bx1 - bx0) * (by1 - by0)))"
  have te: "text_and_edge_score ws (bx0, by0, bx1, by1) img = (tr, mean_edge img)"
    unfolding tr_def by (rule text_ratio_value)
  have cap: "tr \<le> 1"
    by (simp add: tr_def)
  have cls: "looks_like_plain_text tr (mean_edge img) hint \<longleftrightarrow>
      tr > 0.55 \<and> mean_edge img < 0.10 \<and>
      \<not> (case hint of None \<Rightarrow> False | Some st \<Rightarrow> n_lines st + n_curves st \<ge> 6 \<or> n_rects st \<ge> 3)"
    by (cases hint) auto
  show ?thesis
    unfolding te using cap cls by (simp add: tr_def [symmetric])
qed

lemma demo_body_score:
  "text_and_edge_score demo_body_words (0, 0, 100, 100) demo_flat_image = (0.6, 0.05)"
  "text_and_edge_score demo_dense_words (0, 0, 100, 100) demo_flat_image = (1, 0.05)"
  by (simp_all add: demo_body_words_def demo_dense_words_def demo_flat_image_def Let_def)

theorem looks_like_plain_text_exactly_witness:
  "text_and_edge_score demo_body_words (0, 0, 100, 100) demo_flat_image = (0.6, 0.05) \<and>
   text_and_edge_score demo_dense_words (0, 0, 100, 100) demo_flat_image = (1, 0.05) \<and>
   looks_like_plain_text 0.6 0.05 None \<and>
   looks_like_plain_text 0.6 0.05 (Some \<lparr>n_lines = 3, n_rects = 2, n_curves = 2\<rparr>) \<and>
   \<not> looks_like_plain_text 0.6 0.05 (Some \<lparr>n_lines = 4, n_rects = 0, n_curves = 2\<rparr>) \<and>
   \<not> looks_like_plain_text 0.6 0.05 (Some \<lparr>n_lines = 0, n_rects = 3, n_curves = 0\<rparr>) \<and>
   \<not> looks_like_plain_text 0.6 0.2 None \<and> \<not> looks_like_plain_text 0.55 0.05 None"
  using looks_like_plain_text_exactly
    [where ws = demo_body_words and ?bx0.0 = 0 and ?by0.0 = 0 and ?bx1.0 = 100 and ?by1.0 = 100
       and img = demo_flat_image and hint = None]
  by (simp add: demo_body_score del: text_and_edge_score.simps)

subsection \<open>The export loop\<close>

lemma hamming_commute: "hamming a b = hamming b a"
  by (simp add: hamming_def xor.commute)

lemma foldl_preserves:
  assumes "\<And>s x. P s \<Longrightarrow> P (f s x)" and "P s"
  shows "P (foldl f s xs)"
  using assms(2) by (induction xs arbitrary: s) (simp_all add: assms(1))

text \<open>What one round of the loop does to the list of records and to the ledger.\<close>

lemma process_candidate_outcome:
  "(figures (process_candidate r s pg gbs n st c) = figures st \<and>
    kept_hashes (process_candidate r s pg gbs n st c) = kept_hashes st) \<or>
   (\<exists>clipped img.
      clip_to_page (snd c) (pg_bbox pg) = Some clipped \<and> r clipped = Inr img \<and>
      \<not> (img_width img < MIN_IMG_WIDTH \<or> img_height img < MIN_IMG_HEIGHT) \<and>
      \<not> list_ex (\<lambda>h. hamming (phash img) h \<le> HASH_THRESHOLD) (kept_hashes st) \<and>
      kept_hashes (process_candidate r s pg gbs n st c) = kept_hashes st @ [phash img] \<and>
      figures (process_candidate r s pg gbs n st c) = figures st @
        [\<lparr>fig_page = n, fig_caption = find_caption_four_directions pg (pg_words pg) clipped,
          fig_width = img_width img, fig_height = img_height img,
          fig_phash = phash img, fig_contexts = []\<rparr>])"
  by (simp add: process_candidate_def mark_def Let_def split: option.splits sum.splits)

lemma far_apart_snoc:
  assumes "far_apart hs" and "\<not> list_ex (\<lambda>k. hamming h k \<le> HASH_THRESHOLD) hs"
  shows "far_apart (hs @ [h])"
proof -
  have "\<forall>k\<in>set hs. hamming k h > HASH_THRESHOLD"
    using assms(2) by (auto simp: list_ex_iff hamming_commute [of _ h] not_le)
  then show ?thesis
    using assms(1) by (simp add: far_apart_def sorted_wrt_append)
qed

lemma process_candidate_ledger_inv:
  assumes "ledger_inv st"
  shows "ledger_inv (process_candidate r s pg gbs n st c)"
  using process_candidate_outcome [of r s pg gbs n st c] assms
  by (auto simp: ledger_inv_def intro: far_apart_snoc)

lemma process_candidate_size_ok:
  assumes "list_all size_ok (figures st)"
  shows "list_all size_ok (figures (process_candidate r s pg gbs n st c))"
  using process_candidate_outcome [of r s pg gbs n st c] assms
  by (auto simp: size_ok_def)

lemma process_page_ledger_inv: "ledger_inv st \<Longrightarrow> ledger_inv (process_page r s st p)"
  unfolding process_page_def Let_def
  by (rule foldl_preserves) (simp_all add: process_candidate_ledger_inv)

lemma process_page_size_ok:
  "list_all size_ok (figures st) \<Longrightarrow> list_all size_ok (figures (process_page r s st p))"
  unfolding process_page_def Let_def
  by (rule foldl_preserves [where P = "\<lambda>st. list_all size_ok (figures st)"])
     (simp_all add: process_candidate_size_ok)

lemma run_pages_ledger_inv: "ledger_inv (run_pages pdf pages)"
  unfolding run_pages_def
proof (rule foldl_preserves)
  show "ledger_inv init_state"
    by (simp add: ledger_inv_def init_state_def far_apart_def)
qed (simp add: process_page_ledger_inv)

lemma run_pages_size_ok: "list_all size_ok (figures (run_pages pdf pages))"
  unfolding run_pages_def
  by (rule foldl_preserves [where P = "\<lambda>st. list_all size_ok (figures st)"])
     (simp_all add: process_page_size_ok init_state_def)

lemma page_loop_preserves:
  assumes "\<And>st p. P st \<Longrightarrow> P (process_page r s st p)"
    and "P st" and "page_loop r s st ps = Inr st'"
  shows "P st'"
  using assms(2,3)
proof (induction ps arbitrary: st)
  case Nil
  then show ?case by simp
next
  case (Cons p ps)
  obtain n q where p: "p = (n, q)" by (cases p)
  show ?case
  proof (cases q)
    case (Inl e)
    then show ?thesis using Cons.prems(2) p by simp
  next
    case (Inr pg)
    have "P (process_page r s st (n, pg))"
      using Cons.prems(1) by (rule assms(1))
    then show ?thesis
      using Cons.IH [of "process_page r s st (n, pg)"] Cons.prems(2) p Inr by simp
  qed
qed

lemma page_loop_decoded:
  "page_loop r s st (enumerate n (map Inr pages)) = Inr (foldl (process_page r s) st (enumerate n pages))"
  by (induction pages arbitrary: st n) simp_all

lemma extract_cases:
  assumes "extract_images_and_captions pdf = Inr figs"
  obtains pages st where "pdf_plumber pdf = Inr pages"
    and "page_loop (pdf_render pdf) (pdf_save pdf) init_state (enumerate1 pages) = Inr st"
    and "figs = figures st"
  using assms by (auto simp: extract_images_and_captions_def split: sum.splits)

lemma far_apart_nth:
  assumes "far_apart hs" and "i < length hs" and "j < length hs" and "i \<noteq> j"
  shows "hamming (hs ! i) (hs ! j) > HASH_THRESHOLD"
proof (cases "i < j")
  case True
  then show ?thesis
    using assms by (simp add: far_apart_def sorted_wrt_iff_nth_less)
next
  case False
  then have "j < i" using assms(4) by simp
  then have "hamming (hs ! j) (hs ! i) > HASH_THRESHOLD"
    using assms by (simp add: far_apart_def sorted_wrt_iff_nth_less)
  then show ?thesis by (simp add: hamming_commute)
qed

lemma near_duplicate_rejected:
  assumes "clip_to_page (snd c) (pg_bbox pg) = Some clipped" and "r clipped = Inr img"
    and "h \<in> set (kept_hashes st)" and "hamming (phash img) h \<le> HASH_THRESHOLD"
  shows "figures (process_candidate r s pg gbs n st c) = figures st \<and>
         kept_hashes (process_candidate r s pg gbs n st c) = kept_hashes st"
proof -
  have "list_ex (\<lambda>k. hamming (phash img) k \<le> HASH_THRESHOLD) (kept_hashes st)"
    using assms(3,4) by (auto simp: list_ex_iff)
  then show ?thesis
    using process_candidate_outcome [of r s pg gbs n st c] assms(1,2) by auto
qed

lemma small_image_trace:
  assumes "clip_to_page (snd c) (pg_bbox pg) = Some clipped" and "r clipped = Inr img"
    and "img_width img < MIN_IMG_WIDTH \<or> img_height img < MIN_IMG_HEIGHT"
  shows "process_candidate r s pg gbs n st c =
           st\<lparr>calls := calls st @ [(n, fst c, Clip), (n, fst c, CaptionSearch),
                                    (n, fst c, Render), (n, fst c, SizeFilter)]\<rparr>"
  using assms by (auto simp: process_candidate_def mark_def Let_def)

subsection \<open>The small document, evaluated\<close>

lemma hamming_demo: "hamming 255 0 = 8" "hamming 1 0 = 1" "hamming 1 255 = 7"
  by (simp_all add: hamming_def upt_rec bit_numeral_simps)

lemma merge_candidates_single: "merge_candidates [b] = [b]"
  by (simp add: merge_candidates_def add_box_def)

lemma no_words_no_caption: "find_caption_four_directions pg [] b = []"
  by (cases b) (simp add: find_caption_four_directions_def caption_candidates_def sides_def
      List.map_filter_def side_candidate_def Let_def)

lemma no_words_text_ratio: "text_and_edge_score [] b img = (0, mean_edge img)"
  by (cases b) (simp add: Let_def)

lemma demo_page_fields: "pg_bbox demo_page = (0, 0, 600, 800)" "pg_words demo_page = []"
  by (simp_all add: demo_page_def)

lemma demo_small_page_fields:
  "pg_bbox demo_small_page = (0, 0, 600, 800)" "pg_words demo_small_page = []"
  by (simp_all add: demo_small_page_def)

lemma demo_page_step:
  "process_page demo_render demo_save st (n, demo_page) =
     process_candidate (demo_render n) demo_save demo_page [] n st (1, (100, 100, 400, 300))"
  by (simp add: process_page_def gather_graphic_boxes_def demo_page_def merge_candidates_single
      enumerate1_def Let_def)

lemma demo_clip: "clip_to_page (100, 100, 400, 300) (0, 0, 600, 800) = Some (100, 100, 400, 300)"
  "clip_to_page (100, 100, 160, 136) (0, 0, 600, 800) = Some (100, 100, 160, 136)"
  by (simp_all add: Let_def)

lemma demo_candidate_emit:
  assumes "\<not> list_ex (\<lambda>h. hamming (demo_hash n) h \<le> HASH_THRESHOLD) (kept_hashes st)"
  shows "figures (process_candidate (demo_render n) demo_save demo_page [] n st (1, (100, 100, 400, 300)))
           = figures st @ [demo_fig n]
       \<and> kept_hashes (process_candidate (demo_render n) demo_save demo_page [] n st (1, (100, 100, 400, 300)))
           = kept_hashes st @ [demo_hash n]"
  using assms
  by (simp add: process_candidate_def demo_page_fields no_words_no_caption mark_def Let_def
      demo_render_def demo_image_def demo_save_def demo_fig_def MIN_IMG_WIDTH_def
      MIN_IMG_HEIGHT_def no_words_text_ratio)

lemma demo_candidate_reject:
  assumes "h \<in> set (kept_hashes st)" and "hamming (demo_hash n) h \<le> HASH_THRESHOLD"
  shows "figures (process_candidate (demo_render n) demo_save demo_page [] n st (1, (100, 100, 400, 300)))
           = figures st
       \<and> kept_hashes (process_candidate (demo_render n) demo_save demo_page [] n st (1, (100, 100, 400, 300)))
           = kept_hashes st"
proof (rule near_duplicate_rejected [where h = h and img = "demo_image n"])
  show "clip_to_page (snd (1::nat, (100, 100, 400, 300))) (pg_bbox demo_page) = Some (100, 100, 400, 300)"
    by (simp add: demo_page_fields Let_def)
  show "demo_render n (100, 100, 400, 300) = Inr (demo_image n)"
    by (simp add: demo_render_def)
  show "h \<in> set (kept_hashes st)" by (rule assms(1))
  show "hamming (phash (demo_image n)) h \<le> HASH_THRESHOLD"
    using assms(2) by (simp add: demo_image_def)
qed

lemma demo_run:
  "figures (run_pages demo_pdf [demo_page, demo_page, demo_page]) = [demo_fig 1, demo_fig 2]"
proof -
  define st1 where "st1 = process_page demo_render demo_save init_state (1, demo_page)"
  define st2 where "st2 = process_page demo_render demo_save st1 (2, demo_page)"
  define st3 where "st3 = process_page demo_render demo_save st2 (3, demo_page)"
  have run: "run_pages demo_pdf [demo_page, demo_page, demo_page] = st3"
    by (simp add: run_pages_def enumerate1_def demo_pdf_def st1_def st2_def st3_def eval_nat_numeral)
  have s1: "figures st1 = [demo_fig 1] \<and> kept_hashes st1 = [0]"
    unfolding st1_def demo_page_step
    using demo_candidate_emit [of 1 init_state] by (simp add: init_state_def demo_hash_def)
  have s2: "figures st2 = [demo_fig 1, demo_fig 2] \<and> kept_hashes st2 = [0, 255]"
    unfolding st2_def demo_page_step
    using demo_candidate_emit [of 2 st1] s1
    by (simp add: demo_hash_def hamming_demo HASH_THRESHOLD_def)
  have s3: "figures st3 = figures st2"
    unfolding st3_def demo_page_step
    using demo_candidate_reject [of 0 st2 3] s2
    by (simp add: demo_hash_def hamming_demo HASH_THRESHOLD_def)
  show ?thesis
    using run s2 s3 by simp
qed

lemma demo_extract: "extract_images_and_captions demo_pdf = Inr [demo_fig 1, demo_fig 2]"
proof -
  have "page_loop (pdf_render demo_pdf) (pdf_save demo_pdf) init_state
          (enumerate1 (map Inr [demo_page, demo_page, demo_page])) =
        Inr (run_pages demo_pdf [demo_page, demo_page, demo_page])"
    unfolding enumerate1_def run_pages_def by (rule page_loop_decoded)
  then show ?thesis
    using demo_run by (simp add: extract_images_and_captions_def demo_pdf_def)
qed

text \<open>
  Claim C1. Under the compare-to-all-kept scope, any two records emitted for a document
  have hashes at a Hamming distance above the threshold; a candidate whose hash is within
  the threshold of an entry of the ledger emits no record and adds nothing to the ledger.
\<close>

theorem kept_records_far_apart:
  "(extract_images_and_captions pdf = Inr figs \<longrightarrow> i < length figs \<longrightarrow> j < length figs \<longrightarrow>
      i \<noteq> j \<longrightarrow> hamming (fig_phash (figs ! i)) (fig_phash (figs ! j)) > HASH_THRESHOLD) \<and>
   (clip_to_page (snd c) (pg_bbox pg) = Some clipped \<longrightarrow> r clipped = Inr img \<longrightarrow>
      h \<in> set (kept_hashes st) \<longrightarrow> hamming (phash img) h \<le> HASH_THRESHOLD \<longrightarrow>
      figures (process_candidate r s pg gbs n st c) = figures st \<and>
      kept_hashes (process_candidate r s pg gbs n st c) = kept_hashes st)"
proof (intro conjI impI)
  assume ex: "extract_images_and_captions pdf = Inr figs"
    and ij: "i < length figs" "j < length figs" "i \<noteq> j"
  obtain pages final where
    loop: "page_loop (pdf_render pdf) (pdf_save pdf) init_state (enumerate1 pages) = Inr final"
    and figs: "figs = figures final"
    using ex by (rule extract_cases)
  have inv: "ledger_inv final"
  proof (rule page_loop_preserves [where P = ledger_inv, OF _ _ loop])
    show "ledger_inv init_state"
      by (simp add: ledger_inv_def init_state_def far_apart_def)
  qed (rule process_page_ledger_inv)
  then have far: "far_apart (map fig_phash figs)"
    by (simp add: ledger_inv_def figs)
  show "hamming (fig_phash (figs ! i)) (fig_phash (figs ! j)) > HASH_THRESHOLD"
    using far_apart_nth [OF far, of i j] ij by simp
next
  assume "clip_to_page (snd c) (pg_bbox pg) = Some clipped" "r clipped = Inr img"
    "h \<in> set (kept_hashes st)" "hamming (phash img) h \<le> HASH_THRESHOLD"
  then have both: "figures (process_candidate r s pg gbs n st c) = figures st \<and>
         kept_hashes (process_candidate r s pg gbs n st c) = kept_hashes st"
    by (rule near_duplicate_rejected)
  from both show "figures (process_candidate r s pg gbs n st c) = figures st" ..
  from both show "kept_hashes (process_candidate r s pg gbs n st c) = kept_hashes st" ..
qed

theorem kept_records_far_apart_witness:
  "extract_images_and_captions demo_pdf = Inr [demo_fig 1, demo_fig 2] \<and>
   hamming (fig_phash (demo_fig 1)) (fig_phash (demo_fig 2)) > HASH_THRESHOLD \<and>
   clip_to_page (100, 100, 400, 300) (pg_bbox demo_page) = Some (100, 100, 400, 300) \<and>
   demo_render 3 (100, 100, 400, 300) = Inr (demo_image 3) \<and>
   hamming (phash (demo_image 3)) 0 \<le> HASH_THRESHOLD \<and>
   figures (process_candidate (demo_render 3) demo_save demo_page [] 3
              (init_state\<lparr>kept_hashes := [0, 255]\<rparr>) (1, (100, 100, 400, 300))) = [] \<and>
   kept_hashes (process_candidate (demo_render 3) demo_save demo_page [] 3
              (init_state\<lparr>kept_hashes := [0, 255]\<rparr>) (1, (100, 100, 400, 300))) = [0, 255]"
  using kept_records_far_apart [of demo_pdf "[demo_fig 1, demo_fig 2]" 0 1
      "(1, (100, 100, 400, 300))" demo_page "(100, 100, 400, 300)" "demo_render 3" "demo_image 3" 0
      "init_state\<lparr>kept_hashes := [0, 255]\<rparr>" demo_save "[]" 3]
    demo_extract
  by (simp add: demo_page_fields Let_def demo_render_def demo_image_def demo_hash_def hamming_demo
      HASH_THRESHOLD_def init_state_def)

text \<open>
  Claim C2. Every emitted record is at least as wide as the minimum image width and at least
  as high as the minimum image height; a candidate whose rendered image is smaller on either
  axis produces no record.
\<close>

theorem emitted_records_have_minimum_size:
  "(extract_images_and_captions pdf = Inr figs \<longrightarrow> f \<in> set figs \<longrightarrow>
      fig_width f \<ge> MIN_IMG_WIDTH \<and> fig_height f \<ge> MIN_IMG_HEIGHT) \<and>
   (clip_to_page (snd c) (pg_bbox pg) = Some clipped \<longrightarrow> r clipped = Inr img \<longrightarrow>
      img_width img < MIN_IMG_WIDTH \<or> img_height img < MIN_IMG_HEIGHT \<longrightarrow>
      figures (process_candidate r s pg gbs n st c) = figures st)"
proof (intro conjI impI)
  assume ex: "extract_images_and_captions pdf = Inr figs" and f: "f \<in> set figs"
  obtain pages final where
    loop: "page_loop (pdf_render pdf) (pdf_save pdf) init_state (enumerate1 pages) = Inr final"
    and figs: "figs = figures final"
    using ex by (rule extract_cases)
  have "list_all size_ok (figures final)"
  proof (rule page_loop_preserves [where P = "\<lambda>st. list_all size_ok (figures st)", OF _ _ loop])
    show "list_all size_ok (figures init_state)"
      by (simp add: init_state_def)
  qed (rule process_page_size_ok)
  then have "list_all size_ok figs"
    by (simp add: figs)
  then have "size_ok f"
    using f by (simp add: list_all_iff)
  then show "fig_width f \<ge> MIN_IMG_WIDTH" and "fig_height f \<ge> MIN_IMG_HEIGHT"
    by (simp_all add: size_ok_def)
next
  assume "clip_to_page (snd c) (pg_bbox pg) = Some clipped" "r clipped = Inr img"
    "img_width img < MIN_IMG_WIDTH \<or> img_height img < MIN_IMG_HEIGHT"
  then have "process_candidate r s pg gbs n st c =
           st\<lparr>calls := calls st @ [(n, fst c, Clip), (n, fst c, CaptionSearch),
                                    (n, fst c, Render), (n, fst c, SizeFilter)]\<rparr>"
    by (rule small_image_trace)
  then show "figures (process_candidate r s pg gbs n st c) = figures st"
    by simp
qed

theorem emitted_records_have_minimum_size_witness:
  "extract_images_and_captions demo_pdf = Inr [demo_fig 1, demo_fig 2] \<and>
   demo_fig 2 \<in> set [demo_fig 1, demo_fig 2] \<and>
   fig_width (demo_fig 2) \<ge> MIN_IMG_WIDTH \<and> fig_height (demo_fig 2) \<ge> MIN_IMG_HEIGHT \<and>
   clip_to_page (100, 100, 160, 136) (pg_bbox demo_small_page) = Some (100, 100, 160, 136) \<and>
   demo_render 1 (100, 100, 160, 136) = Inr demo_small_image \<and>
   img_width demo_small_image < MIN_IMG_WIDTH \<and>
   figures (process_candidate (demo_render 1) demo_save demo_small_page [] 1 init_state
              (1, (100, 100, 160, 136))) = []"
  using emitted_records_have_minimum_size [of demo_pdf "[demo_fig 1, demo_fig 2]" "demo_fig 2"
      "(1, (100, 100, 160, 136))" demo_small_page "(100, 100, 160, 136)" "demo_render 1"
      demo_small_image demo_save "[]" 1 init_state]
    demo_extract
  by (simp add: demo_small_page_fields Let_def demo_render_def demo_small_image_def
      MIN_IMG_WIDTH_def init_state_def)

text \<open>
  Claim C4, as the code has it. A candidate whose rendered image is below the minimum size is
  dropped by the size filter after the caption search and the rendering have run on it, and
  before classification and deduplication: the round reaches the four steps clip, caption
  search, render and size filter and no other, emits no record and stores no hash.
\<close>

theorem small_candidate_filtered_after_caption:
  "clip_to_page (snd c) (pg_bbox pg) = Some clipped \<Longrightarrow> r clipped = Inr img \<Longrightarrow>
   img_width img < MIN_IMG_WIDTH \<or> img_height img < MIN_IMG_HEIGHT \<Longrightarrow>
   calls (process_candidate r s pg gbs n st c) =
     calls st @ [(n, fst c, Clip), (n, fst c, CaptionSearch), (n, fst c, Render), (n, fst c, SizeFilter)] \<and>
   figures (process_candidate r s pg gbs n st c) = figures st \<and>
   kept_hashes (process_candidate r s pg gbs n st c) = kept_hashes st"
  using small_image_trace [of c pg clipped r img s gbs n st] by simp

theorem small_candidate_filtered_after_caption_witness:
  "clip_to_page (100, 100, 160, 136) (pg_bbox demo_small_page) = Some (100, 100, 160, 136) \<and>
   demo_render 1 (100, 100, 160, 136) = Inr demo_small_image \<and>
   img_width demo_small_image = 150 \<and> img_height demo_small_image = 90 \<and>
   calls (process_candidate (demo_render 1) demo_save demo_small_page [] 1 init_state
            (7, (100, 100, 160, 136))) =
     [(1, 7, Clip), (1, 7, CaptionSearch), (1, 7, Render), (1, 7, SizeFilter)] \<and>
   figures (process_candidate (demo_render 1) demo_save demo_small_page [] 1 init_state
            (7, (100, 100, 160, 136))) = [] \<and>
   kept_hashes (process_candidate (demo_render 1) demo_save demo_small_page [] 1 init_state
            (7, (100, 100, 160, 136))) = []"
  using small_candidate_filtered_after_caption [of "(7, (100, 100, 160, 136))" demo_small_page
      "(100, 100, 160, 136)" "demo_render 1" demo_small_image demo_save "[]" 1 init_state]
  by (simp add: demo_small_page_fields Let_def demo_render_def demo_small_image_def
      MIN_IMG_WIDTH_def init_state_def)

text \<open>
  The claim as written fails: for the candidate of 150 by 90 pixels the caption search is
  among the steps that ran.
\<close>

theorem caption_search_runs_on_small_candidate:
  "img_width demo_small_image = 150 \<and> img_height demo_small_image = 90 \<and>
   demo_render 1 (100, 100, 160, 136) = Inr demo_small_image \<and>
   (1, 1, CaptionSearch) \<in> set (calls (process_candidate (demo_render 1) demo_save demo_small_page []
       1 init_state (1, (100, 100, 160, 136))))"
  by (simp add: process_candidate_def demo_small_page_fields Let_def demo_render_def
      demo_small_image_def MIN_IMG_WIDTH_def MIN_IMG_HEIGHT_def init_state_def mark_def)

subsection \<open>Context locator\<close>

lemma window_closed: "0 \<le> i \<Longrightarrow> window n i = (max 0 (i - 2), min n (max 0 (i - 2) + 5))"
  by (auto simp: window_def Let_def)

lemma merge_range_snoc:
  "merge_range (ms @ [(ps, pe)]) (cs, ce) =
     (if cs \<le> pe then ms @ [(ps, max pe ce)] else ms @ [(ps, pe), (cs, ce)])"
  by simp

lemma covered_append: "covered (xs @ ys) = covered xs \<union> covered ys"
  by (auto simp: covered_def)

text \<open>
  One round of the merging loop, when the ranges merged so far are separated and none of
  them starts after the new range.
\<close>

lemma merge_range_inv:
  assumes "gap_sorted merged" and "\<forall>m\<in>set merged. fst m \<le> fst r"
  shows "gap_sorted (merge_range merged r) \<and>
         covered (merge_range merged r) = covered merged \<union> covered [r] \<and>
         (\<forall>m\<in>set (merge_range merged r). fst m \<le> fst r)"
proof (cases merged rule: rev_cases)
  case Nil
  then show ?thesis by (cases r) (simp add: gap_sorted_def covered_def)
next
  case (snoc ms p)
  obtain ps pe where p: "p = (ps, pe)" by (cases p)
  obtain cs ce where r: "r = (cs, ce)" by (cases r)
  have le: "ps \<le> cs" using assms(2) snoc p r by simp
  have ms: "\<forall>m\<in>set ms. snd m < ps" "gap_sorted ms"
    using assms(1) snoc p by (auto simp: gap_sorted_def sorted_wrt_append)
  show ?thesis
  proof (cases "cs \<le> pe")
    case True
    have "covered [(ps, max pe ce)] = covered [(ps, pe)] \<union> covered [(cs, ce)]"
      using True le by (auto simp: covered_def)
    then show ?thesis
      using True ms le assms(2) unfolding snoc p r merge_range_snoc
      by (auto simp: gap_sorted_def sorted_wrt_append covered_append)
  next
    case False
    then show ?thesis
      using ms le assms(1,2) unfolding snoc p r merge_range_snoc
      by (auto simp: gap_sorted_def sorted_wrt_append covered_append covered_def)
  qed
qed

lemma foldl_merge_range:
  assumes "gap_sorted merged" and "\<forall>m\<in>set merged. \<forall>r\<in>set rs. fst m \<le> fst r"
    and "sorted (map fst rs)"
  shows "gap_sorted (foldl merge_range merged rs) \<and>
         covered (foldl merge_range merged rs) = covered merged \<union> covered rs"
  using assms
proof (induction rs arbitrary: merged)
  case Nil
  then show ?case by (simp add: covered_def)
next
  case (Cons r rs)
  have step: "gap_sorted (merge_range merged r) \<and>
         covered (merge_range merged r) = covered merged \<union> covered [r] \<and>
         (\<forall>m\<in>set (merge_range merged r). fst m \<le> fst r)"
    using Cons.prems by (intro merge_range_inv) auto
  have later: "\<forall>m\<in>set (merge_range merged r). \<forall>q\<in>set rs. fst m \<le> fst q"
    using step Cons.prems(3) by fastforce
  have "gap_sorted (foldl merge_range (merge_range merged r) rs) \<and>
        covered (foldl merge_range (merge_range merged r) rs) = covered (merge_range merged r) \<union> covered rs"
    using Cons.IH [of "merge_range merged r"] step later Cons.prems(3) by simp
  then show ?case
    using step covered_append [of "[r]" rs] by auto
qed

lemma sorted_fst: "sorted (rs :: (int \<times> int) list) \<Longrightarrow> sorted (map fst rs)"
  by (induction rs) (auto simp: less_eq_prod_def)

lemma merge_ranges_correct:
  "gap_sorted (merge_ranges ranges) \<and> covered (merge_ranges ranges) = covered ranges"
proof -
  have "gap_sorted (foldl merge_range [] (sort ranges)) \<and>
        covered (foldl merge_range [] (sort ranges)) = covered [] \<union> covered (sort ranges)"
    by (intro foldl_merge_range) (simp_all add: gap_sorted_def sorted_fst)
  then show ?thesis
    by (simp add: merge_ranges_def covered_def)
qed

lemma set_ref_ranges:
  "set (ref_ranges hit ss) = {window (int (length ss)) (int i) | i. i < length ss \<and> hit (ss ! i)}"
  by (force simp: ref_ranges_def in_set_enumerate_eq image_iff)

lemma find_contexts_single:
  "first_num fig = Some num \<Longrightarrow>
   find_contexts sp first_num mn [fig] full_text =
     [fig\<lparr>fig_contexts := contexts_of (sp full_text) (merge_ranges (ref_ranges (mn num) (sp full_text)))\<rparr>]"
  by (simp add: find_contexts_def Let_def)

text \<open>
  Claim C6, as the code has it. A reference match at sentence index \<open>i\<close> of a document of
  \<open>n\<close> sentences yields the window that starts at \<open>max(0, i-2)\<close> and ends at
  \<open>min(n, max(0, i-2) + 5)\<close>. For \<open>2 \<le> i\<close> and \<open>i + 3 \<le> n\<close> this is the window from
  \<open>i-2\<close> to \<open>i+3\<close>; for a match in the first two sentences it starts at 0 and is
  widened to end at \<open>min(n, 5)\<close>; it never ends before \<open>min(n, i+3)\<close> or after \<open>n\<close>, and it spans at
  least 5 sentences whenever the document has at least 5 sentences and \<open>i + 3 \<le> n\<close>. The
  ranges of a figure are exactly the windows of its matching sentences; they are merged
  into ranges that are sorted by start index and separated by at least one sentence and
  that cover the same sentences, and each merged range is joined into one context string.
\<close>

theorem context_windows_merged:
  "(0 \<le> i \<longrightarrow> i < n \<longrightarrow>
      fst (window n i) = max 0 (i - 2) \<and> min n (i + 3) \<le> snd (window n i) \<and>
      snd (window n i) \<le> n \<and>
      (5 \<le> n \<and> i + 3 \<le> n \<longrightarrow> snd (window n i) - fst (window n i) \<ge> 5) \<and>
      snd (window n i) = min n (max 0 (i - 2) + 5) \<and>
      (2 \<le> i \<and> i + 3 \<le> n \<longrightarrow> window n i = (i - 2, i + 3))) \<and>
   (first_num fig = Some num \<longrightarrow>
      set (ref_ranges (mn num) (sp full_text)) =
        {window (int (length (sp full_text))) (int k) | k.
           k < length (sp full_text) \<and> mn num (sp full_text ! k)} \<and>
      gap_sorted (merge_ranges (ref_ranges (mn num) (sp full_text))) \<and>
      covered (merge_ranges (ref_ranges (mn num) (sp full_text))) =
        covered (ref_ranges (mn num) (sp full_text)) \<and>
      map fig_contexts (find_contexts sp first_num mn [fig] full_text) =
        [map (\<lambda>r. join [32] (py_slice (fst r) (snd r) (sp full_text)))
           (merge_ranges (ref_ranges (mn num) (sp full_text)))])"
proof (intro conjI impI)
  assume i: "0 \<le> i" "i < n"
  have w: "window n i = (max 0 (i - 2), min n (max 0 (i - 2) + 5))"
    using i(1) by (rule window_closed)
  show "fst (window n i) = max 0 (i - 2)"
    by (simp add: w)
  show "min n (i + 3) \<le> snd (window n i)"
    by (simp add: w)
  show "snd (window n i) \<le> n"
    by (simp add: w)
  show "snd (window n i) = min n (max 0 (i - 2) + 5)"
    by (simp add: w)
  show "snd (window n i) - fst (window n i) \<ge> 5" if "5 \<le> n \<and> i + 3 \<le> n"
    using that i by (simp add: w min_def max_def)
  show "window n i = (i - 2, i + 3)" if "2 \<le> i \<and> i + 3 \<le> n"
    using that by (simp add: w)
next
  show "set (ref_ranges (mn num) (sp full_text)) =
        {window (int (length (sp full_text))) (int k) | k.
           k < length (sp full_text) \<and> mn num (sp full_text ! k)}"
    by (rule set_ref_ranges)
  show "gap_sorted (merge_ranges (ref_ranges (mn num) (sp full_text)))"
    using merge_ranges_correct [of "ref_ranges (mn num) (sp full_text)"] by simp
  show "covered (merge_ranges (ref_ranges (mn num) (sp full_text))) =
        covered (ref_ranges (mn num) (sp full_text))"
    using merge_ranges_correct [of "ref_ranges (mn num) (sp full_text)"] by simp
  assume "first_num fig = Some num"
  then show "map fig_contexts (find_contexts sp first_num mn [fig] full_text) =
        [map (\<lambda>r. join [32] (py_slice (fst r) (snd r) (sp full_text)))
           (merge_ranges (ref_ranges (mn num) (sp full_text)))]"
    by (simp add: find_contexts_single contexts_of_def)
qed

lemma demo_sentences:
  "demo_split demo_text =
     [ascii ''a'', ascii ''b'', ascii ''c'', ascii ''d'', ascii ''e'', ascii ''X'', ascii ''g'',
      ascii ''h'', ascii ''i'', ascii ''j'', ascii ''k'', ascii ''l'', ascii ''X'']"
  by (simp add: demo_split_def demo_text_def ascii_def)

lemma demo_ranges:
  "ref_ranges (demo_mentions (ascii ''X'')) (demo_split demo_text) = [(3, 8), (10, 13)]"
  by (simp add: demo_sentences ref_ranges_def demo_mentions_def ascii_def enumerate_eq_zip
      upt_rec window_def Let_def)

lemma demo_merged: "merge_ranges [(3, 8), (10, 13)] = [(3, 8), (10, 13)]"
  by (simp add: merge_ranges_def less_eq_prod_def)

theorem context_windows_merged_witness:
  "(0::int) \<le> 5 \<and> (5::int) < 13 \<and> (2::int) \<le> 5 \<and> (5::int) + 3 \<le> 13 \<and> window 13 5 = (3, 8) \<and>
   demo_first_num (demo_fig 1) = Some (ascii ''X'') \<and>
   ref_ranges (demo_mentions (ascii ''X'')) (demo_split demo_text) = [(3, 8), (10, 13)] \<and>
   gap_sorted [(3, 8), (10, 13)] \<and>
   map fig_contexts (find_contexts demo_split demo_first_num demo_mentions [demo_fig 1] demo_text) =
     [[ascii ''d e X g h'', ascii ''k l X'']]"
  using context_windows_merged [of 5 13 demo_first_num "demo_fig 1" "ascii ''X''" demo_mentions
      demo_split demo_text]
  by (simp add: demo_first_num_def demo_ranges demo_merged window_def Let_def)
     (simp add: demo_sentences py_slice_def ascii_def)

text \<open>
  The claim as written fails where the document ends: a window is never widened backwards,
  so a match in the last sentence of 20 gets three sentences, and a document of three
  sentences has no window of five.
\<close>

theorem window_not_widened_at_end: "window 20 19 = (17, 20) \<and> window 3 1 = (0, 3)"
  by (simp add: window_def Let_def)

subsection \<open>Orchestration\<close>

lemma page_loop_raises:
  "page_loop r s st (enumerate n (map Inr good @ Inl e # rest)) = Inl e"
  by (induction good arbitrary: st n) simp_all

lemma main_loop_append:
  "main_loop sp fn mn (xs @ ys) w =
     (case main_loop sp fn mn xs w of
        (w', None) \<Rightarrow> main_loop sp fn mn ys w'
      | (w', Some e) \<Rightarrow> (w', Some e))"
  by (induction sp fn mn xs w rule: main_loop.induct) (auto split: sum.splits)

lemma main_loop_all_processed:
  assumes "\<forall>p\<in>set files. is_pdf_name (fst p) \<longrightarrow> (\<exists>figs. process_pdf sp fn mn (snd p) = Inr figs)"
  shows "snd (main_loop sp fn mn files w) = None \<and>
         map fst (fst (main_loop sp fn mn files w)) = map fst w @ filter is_pdf_name (map fst files)"
  using assms
proof (induction sp fn mn files w rule: main_loop.induct)
  case (1 sp fn mn written)
  then show ?case by simp
next
  case (2 sp fn mn f pdf rest written)
  show ?case
  proof (cases "is_pdf_name f")
    case True
    then obtain figs where figs: "process_pdf sp fn mn pdf = Inr figs"
      using "2.prems" by auto
    show ?thesis
      using "2.IH"(1) [OF True figs] "2.prems" True figs by simp
  next
    case False
    then show ?thesis
      using "2.IH"(2) [OF False] "2.prems" by simp
  qed
qed

text \<open>
  Claim C5, as the code has it. A document that fails raises out of \<^verbatim>\<open>process_pdf\<close>
  and ends the loop over the directory: the documents listed before it have been processed
  and written, the failing one and all after it are not processed. A document whose file
  the text reader or the page decoder cannot open fails in this way, and so does one with
  a page that cannot be decoded. When no listed document fails, every file named as a PDF
  is processed.
\<close>

theorem document_failure_ends_run:
  "(snd (main_loop sp fn mn pre w) = None \<longrightarrow> is_pdf_name f \<longrightarrow>
      process_pdf sp fn mn pdf = Inl e \<longrightarrow>
      main_loop sp fn mn (pre @ (f, pdf) # post) w = (fst (main_loop sp fn mn pre w), Some e)) \<and>
   (pdf_makedirs p1 = Inr u1 \<longrightarrow> pdf_reader p1 = Inl e1 \<longrightarrow> process_pdf sp fn mn p1 = Inl e1) \<and>
   (pdf_makedirs p2 = Inr u2 \<longrightarrow> pdf_reader p2 = Inr t2 \<longrightarrow> pdf_plumber p2 = Inl e2 \<longrightarrow>
      process_pdf sp fn mn p2 = Inl e2) \<and>
   (pdf_makedirs p3 = Inr u3 \<longrightarrow> pdf_reader p3 = Inr t3 \<longrightarrow>
      pdf_plumber p3 = Inr (map Inr good @ Inl e3 # rest) \<longrightarrow>
      process_pdf sp fn mn p3 = Inl e3) \<and>
   ((\<forall>p\<in>set files. is_pdf_name (fst p) \<longrightarrow> (\<exists>figs. process_pdf sp fn mn (snd p) = Inr figs)) \<longrightarrow>
      snd (main_loop sp fn mn files []) = None \<and>
      map fst (fst (main_loop sp fn mn files [])) = filter is_pdf_name (map fst files))"
proof (intro conjI impI)
  assume pre: "snd (main_loop sp fn mn pre w) = None" and f: "is_pdf_name f"
    and raise: "process_pdf sp fn mn pdf = Inl e"
  obtain w' where w': "main_loop sp fn mn pre w = (w', None)"
    using pre by (cases "main_loop sp fn mn pre w") auto
  show "main_loop sp fn mn (pre @ (f, pdf) # post) w = (fst (main_loop sp fn mn pre w), Some e)"
    by (simp add: main_loop_append w' f raise)
next
  assume "pdf_makedirs p1 = Inr u1" "pdf_reader p1 = Inl e1"
  then show "process_pdf sp fn mn p1 = Inl e1"
    by (simp add: process_pdf_def extract_text_def)
next
  assume "pdf_makedirs p2 = Inr u2" "pdf_reader p2 = Inr t2" "pdf_plumber p2 = Inl e2"
  then show "process_pdf sp fn mn p2 = Inl e2"
    by (simp add: process_pdf_def extract_text_def extract_images_and_captions_def Let_def)
next
  assume "pdf_makedirs p3 = Inr u3" "pdf_reader p3 = Inr t3"
    "pdf_plumber p3 = Inr (map Inr good @ Inl e3 # rest)"
  then show "process_pdf sp fn mn p3 = Inl e3"
    by (simp add: process_pdf_def extract_text_def extract_images_and_captions_def Let_def
        enumerate1_def page_loop_raises)
next
  assume all: "\<forall>p\<in>set files. is_pdf_name (fst p) \<longrightarrow> (\<exists>figs. process_pdf sp fn mn (snd p) = Inr figs)"
  show "snd (main_loop sp fn mn files []) = None"
    using main_loop_all_processed [OF all, of "[]"] by simp
  show "map fst (fst (main_loop sp fn mn files [])) = filter is_pdf_name (map fst files)"
    using main_loop_all_processed [OF all, of "[]"] by simp
qed

lemma demo_names: "is_pdf_name (ascii ''a.pdf'')" "is_pdf_name (ascii ''B.PDF'')"
  "is_pdf_name (ascii ''b.pdf'')" "\<not> is_pdf_name (ascii ''notes.txt'')"
  by (simp_all add: is_pdf_name_def ascii_def ascii_lower_def)

lemma demo_process:
  "process_pdf demo_split demo_first_num demo_mentions demo_pdf = Inr [demo_fig 1, demo_fig 2]"
proof -
  have texts: "extract_text demo_pdf = Inr ([[], [], []], [10, 10])"
    by (simp add: extract_text_def demo_pdf_def Let_def)
  have "ref_ranges (demo_mentions (ascii ''X'')) (demo_split [10, 10]) = []"
    by (simp add: ref_ranges_def demo_split_def demo_mentions_def ascii_def enumerate_eq_zip upt_rec)
  then have "find_contexts demo_split demo_first_num demo_mentions [demo_fig 1, demo_fig 2] [10, 10]
      = [demo_fig 1, demo_fig 2]"
    by (simp add: find_contexts_def Let_def demo_first_num_def merge_ranges_def contexts_of_def
        demo_fig_def)
  moreover have "pdf_makedirs demo_pdf = Inr ()" "pdf_write demo_pdf = Inr ()"
    by (simp_all add: demo_pdf_def)
  ultimately show ?thesis
    by (simp add: process_pdf_def texts demo_extract)
qed

lemma demo_failures:
  "process_pdf demo_split demo_first_num demo_mentions demo_broken_pdf = Inl OpenError"
  "process_pdf demo_split demo_first_num demo_mentions demo_unplumbed_pdf = Inl OpenError"
  "process_pdf demo_split demo_first_num demo_mentions demo_undecoded_pdf = Inl DecodeError"
  by (simp_all add: process_pdf_def extract_text_def extract_images_and_captions_def Let_def
      enumerate1_def demo_broken_pdf_def demo_unplumbed_pdf_def demo_undecoded_pdf_def)

theorem document_failure_ends_run_witness:
  "snd (main_loop demo_split demo_first_num demo_mentions [(ascii ''a.pdf'', demo_pdf)] []) = None \<and>
   is_pdf_name (ascii ''B.PDF'') \<and>
   process_pdf demo_split demo_first_num demo_mentions demo_undecoded_pdf = Inl DecodeError \<and>
   main_loop demo_split demo_first_num demo_mentions
     ([(ascii ''a.pdf'', demo_pdf)] @ (ascii ''B.PDF'', demo_undecoded_pdf) # [(ascii ''c.pdf'', demo_pdf)]) []
     = ([(ascii ''a.pdf'', [demo_fig 1, demo_fig 2])], Some DecodeError) \<and>
   pdf_makedirs demo_broken_pdf = Inr () \<and> pdf_reader demo_broken_pdf = Inl OpenError \<and>
   process_pdf demo_split demo_first_num demo_mentions demo_broken_pdf = Inl OpenError \<and>
   pdf_reader demo_unplumbed_pdf = Inr [Inr [], Inr [], Inr []] \<and>
   pdf_plumber demo_unplumbed_pdf = Inl OpenError \<and>
   process_pdf demo_split demo_first_num demo_mentions demo_unplumbed_pdf = Inl OpenError \<and>
   pdf_plumber demo_undecoded_pdf = Inr (map Inr [demo_page] @ Inl DecodeError # [Inr demo_page]) \<and>
   map fst (fst (main_loop demo_split demo_first_num demo_mentions
     [(ascii ''a.pdf'', demo_pdf), (ascii ''notes.txt'', demo_broken_pdf), (ascii ''B.PDF'', demo_pdf)] []))
     = [ascii ''a.pdf'', ascii ''B.PDF'']"
proof -
  have fields: "pdf_makedirs demo_broken_pdf = Inr ()" "pdf_reader demo_broken_pdf = Inl OpenError"
    "pdf_makedirs demo_unplumbed_pdf = Inr ()"
    "pdf_reader demo_unplumbed_pdf = Inr [Inr [], Inr [], Inr []]"
    "pdf_plumber demo_unplumbed_pdf = Inl OpenError"
    "pdf_makedirs demo_undecoded_pdf = Inr ()"
    "pdf_reader demo_undecoded_pdf = Inr [Inr [], Inr [], Inr []]"
    "pdf_plumber demo_undecoded_pdf = Inr (map Inr [demo_page] @ Inl DecodeError # [Inr demo_page])"
    by (simp_all add: demo_broken_pdf_def demo_unplumbed_pdf_def demo_undecoded_pdf_def)
  show ?thesis
    using document_failure_ends_run [of demo_split demo_first_num demo_mentions
        "[(ascii ''a.pdf'', demo_pdf)]" "[]" "ascii ''B.PDF''" demo_undecoded_pdf DecodeError
        "[(ascii ''c.pdf'', demo_pdf)]"
        demo_broken_pdf "()" OpenError
        demo_unplumbed_pdf "()" "[Inr [], Inr [], Inr []]" OpenError
        demo_undecoded_pdf "()" "[Inr [], Inr [], Inr []]" "[demo_page]" DecodeError "[Inr demo_page]"
        "[(ascii ''a.pdf'', demo_pdf), (ascii ''notes.txt'', demo_broken_pdf), (ascii ''B.PDF'', demo_pdf)]"]
      fields
    by (simp add: demo_names demo_process demo_failures)
qed

text \<open>
  The claim as written fails: when the first of two documents cannot be opened, the run
  ends with the exception and the second document, which is sound, is not processed.
\<close>

theorem sibling_not_processed_after_failure:
  "main_loop demo_split demo_first_num demo_mentions
     [(ascii ''a.pdf'', demo_broken_pdf), (ascii ''b.pdf'', demo_pdf)] [] = ([], Some OpenError) \<and>
   process_pdf demo_split demo_first_num demo_mentions demo_pdf = Inr [demo_fig 1, demo_fig 2]"
  by (simp add: demo_names demo_process demo_failures)

subsection \<open>Caption locator\<close>

lemma earlier_simps:
  "earlier a Bottom = False"
  "earlier a Top = (a = Bottom)"
  "earlier a Right = (a = Bottom \<or> a = Top)"
  "earlier a Left = (a = Bottom \<or> a = Top \<or> a = Right)"
  by (auto simp: earlier_def sides_def)

lemma pick_best_caption_eq:
  "pick_best_caption cs = (case cs of [] \<Rightarrow> [] | c # cs' \<Rightarrow> fst (max_by score c cs'))"
  by (cases cs) simp_all

text \<open>
  The maximum over the candidates of the four sides, taken in the order of the loop, is
  the candidate of the first side whose value no other side exceeds.
\<close>

lemma first_best_side:
  fixes f :: "'a \<Rightarrow> real"
  assumes c: "g sd = Some c"
    and ge: "\<And>sd' c'. g sd' = Some c' \<Longrightarrow> f c' \<le> f c"
    and gt: "\<And>sd' c'. earlier sd' sd \<Longrightarrow> g sd' = Some c' \<Longrightarrow> f c' < f c"
  shows "(case List.map_filter g sides of [] \<Rightarrow> None | x # xs \<Rightarrow> Some (max_by f x xs)) = Some c"
proof -
  note ge' = ge [of Bottom] ge [of Top] ge [of Right] ge [of Left]
  note gt' = gt [of Bottom] gt [of Top] gt [of Right] gt [of Left]
  show ?thesis
  proof (cases sd)
    case Bottom
    then show ?thesis
      using c ge' by (cases "g Top"; cases "g Right"; cases "g Left")
        (simp_all add: sides_def List.map_filter_def not_less)
  next
    case Top
    then show ?thesis
      using c ge' gt' by (cases "g Bottom"; cases "g Right"; cases "g Left")
        (simp_all add: sides_def List.map_filter_def not_less earlier_simps)
  next
    case Right
    then show ?thesis
      using c ge' gt' by (cases "g Bottom"; cases "g Top"; cases "g Left")
        (simp_all add: sides_def List.map_filter_def not_less earlier_simps)
  next
    case Left
    then show ?thesis
      using c ge' gt' by (cases "g Bottom"; cases "g Top"; cases "g Right")
        (simp_all add: sides_def List.map_filter_def not_less earlier_simps)
  qed
qed

lemma score_labelled: "LABEL_REGEX_match t \<Longrightarrow>
  score (t, d) = 10 - d * 0.01 - real_of_int (max 0 (int (length t) - 260)) * 0.002"
  by (simp add: Let_def)

lemma score_unlabelled: "\<not> LABEL_REGEX_match t \<Longrightarrow>
  score (t, d) = - (d * 0.01) - real_of_int (max 0 (int (length t) - 260)) * 0.002"
  by (simp add: Let_def)

lemma labelled_beats:
  assumes "LABEL_REGEX_match t1" "\<not> LABEL_REGEX_match t2" "length t1 < 5260"
  shows "score (t1, d) > score (t2, d)"
proof -
  have "real_of_int (max 0 (int (length t1) - 260)) < 5000"
    using assms(3) by simp
  then have "real_of_int (max 0 (int (length t1) - 260)) * 0.002 < 10" by simp
  moreover have "real_of_int (max 0 (int (length t2) - 260)) * 0.002 \<ge> 0" by simp
  ultimately show ?thesis
    unfolding score_labelled [OF assms(1)] score_unlabelled [OF assms(2)] by linarith
qed

lemmas label_eval = LABEL_REGEX_match_def ascii_def label_words_def lstrip_def is_space_def
  ci_eq_def is_digit_def

lemma demo_labels:
  "LABEL_REGEX_match demo_long_caption" "\<not> LABEL_REGEX_match demo_plain_caption"
  "LABEL_REGEX_match demo_short_caption"
  by (simp_all add: label_eval demo_long_caption_def demo_plain_caption_def demo_short_caption_def)

lemma demo_lengths:
  "length demo_long_caption = 5306" "length demo_plain_caption = 10" "length demo_short_caption = 15"
  by (simp_all add: demo_long_caption_def demo_plain_caption_def demo_short_caption_def ascii_def)

text \<open>
  Claim C8, as the code has it. Of two candidate caption strings at equal distance, one that
  begins with a recognized label and one that does not, the labelled one is chosen, in
  whichever order the two were collected, provided that it has fewer than 5260 characters:
  then the penalty for its length stays below the bonus of 10 for the label.
\<close>

theorem labelled_caption_chosen_at_equal_distance:
  "LABEL_REGEX_match t1 \<Longrightarrow> \<not> LABEL_REGEX_match t2 \<Longrightarrow> length t1 < 5260 \<Longrightarrow>
   pick_best_caption [(t1, d), (t2, d)] = t1 \<and> pick_best_caption [(t2, d), (t1, d)] = t1"
  using labelled_beats [of t1 t2 d] by (simp del: score.simps)

theorem labelled_caption_chosen_at_equal_distance_witness:
  "LABEL_REGEX_match demo_short_caption \<and> \<not> LABEL_REGEX_match demo_plain_caption \<and>
   length demo_short_caption < 5260 \<and>
   pick_best_caption [(demo_short_caption, 0), (demo_plain_caption, 0)] = demo_short_caption \<and>
   pick_best_caption [(demo_plain_caption, 0), (demo_short_caption, 0)] = demo_short_caption"
  using labelled_caption_chosen_at_equal_distance [of demo_short_caption demo_plain_caption 0]
  by (simp add: demo_labels demo_lengths del: pick_best_caption.simps)

text \<open>
  The claim as written fails for a long labelled string: with 5306 characters its length
  penalty is above 10, and the unlabelled string at the same distance is chosen.
\<close>

theorem long_labelled_caption_loses:
  "LABEL_REGEX_match demo_long_caption \<and> \<not> LABEL_REGEX_match demo_plain_caption \<and>
   pick_best_caption [(demo_long_caption, 0), (demo_plain_caption, 0)] = demo_plain_caption"
  by (simp add: score_labelled score_unlabelled demo_labels demo_lengths)

text \<open>
  Claim C9. When the candidates of several sides attain the same maximal score, the side
  collected first wins: the sides are visited in the order bottom, top, right, left, and
  the candidate of a side is returned when no side has a higher score and every side
  visited before it has a lower one.
\<close>

theorem first_collected_side_wins:
  "(side_candidate pg ws bbox sd = Some c \<longrightarrow>
      (\<forall>sd' c'. side_candidate pg ws bbox sd' = Some c' \<longrightarrow>
          score c' \<le> score c \<and> (earlier sd' sd \<longrightarrow> score c' < score c)) \<longrightarrow>
      pick_best_caption (caption_candidates pg ws bbox) = fst c) \<and>
   sides = [Bottom, Top, Right, Left] \<and>
   earlier Bottom Top \<and> earlier Top Right \<and> earlier Right Left \<and>
   \<not> earlier Top Bottom \<and> \<not> earlier Right Top \<and> \<not> earlier Left Right"
proof (intro conjI impI)
  assume c: "side_candidate pg ws bbox sd = Some c"
    and best: "\<forall>sd' c'. side_candidate pg ws bbox sd' = Some c' \<longrightarrow>
          score c' \<le> score c \<and> (earlier sd' sd \<longrightarrow> score c' < score c)"
  have "(case List.map_filter (side_candidate pg ws bbox) sides of
           [] \<Rightarrow> None | x # xs \<Rightarrow> Some (max_by score x xs)) = Some c"
    using c best by (intro first_best_side) blast+
  then show "pick_best_caption (caption_candidates pg ws bbox) = fst c"
    by (auto simp: pick_best_caption_eq caption_candidates_def split: list.splits)
qed (simp_all add: earlier_simps sides_def)

lemmas caption_eval = side_candidate_def Let_def SEARCH_MARGIN_def vertical_def
  join_words_linewise_def py_round_def WORD_JOIN_GAP_def LINE_GAP_STOP_def CAPTION_MIN_LEN_def
  strip_def is_space_def ascii_def less_eq_prod_def

lemma demo_tie_sides:
  "side_candidate demo_page demo_tie_words (100, 100, 400, 300) Bottom = Some (ascii ''bottomtext'', 0)"
  "side_candidate demo_page demo_tie_words (100, 100, 400, 300) Top = Some (ascii ''toptextabc'', 0)"
  "side_candidate demo_page demo_tie_words (100, 100, 400, 300) Right = None"
  "side_candidate demo_page demo_tie_words (100, 100, 400, 300) Left = None"
  by (simp_all add: caption_eval demo_page_def demo_tie_words_def)

lemma demo_tie_scores: "score (ascii ''bottomtext'', 0) = 0" "score (ascii ''toptextabc'', 0) = 0"
  by (simp_all add: label_eval)

theorem first_collected_side_wins_witness:
  "side_candidate demo_page demo_tie_words (100, 100, 400, 300) Bottom = Some (ascii ''bottomtext'', 0) \<and>
   side_candidate demo_page demo_tie_words (100, 100, 400, 300) Top = Some (ascii ''toptextabc'', 0) \<and>
   score (ascii ''toptextabc'', 0) = score (ascii ''bottomtext'', 0) \<and>
   pick_best_caption (caption_candidates demo_page demo_tie_words (100, 100, 400, 300)) =
     ascii ''bottomtext''"
proof -
  have best: "\<forall>sd' c'. side_candidate demo_page demo_tie_words (100, 100, 400, 300) sd' = Some c' \<longrightarrow>
      score c' \<le> score (ascii ''bottomtext'', 0) \<and>
      (earlier sd' Bottom \<longrightarrow> score c' < score (ascii ''bottomtext'', 0))"
  proof (intro allI impI)
    fix sd' c'
    assume "side_candidate demo_page demo_tie_words (100, 100, 400, 300) sd' = Some c'"
    then show "score c' \<le> score (ascii ''bottomtext'', 0) \<and>
      (earlier sd' Bottom \<longrightarrow> score c' < score (ascii ''bottomtext'', 0))"
      by (cases sd') (auto simp: demo_tie_sides demo_tie_scores earlier_simps simp del: score.simps)
  qed
  show ?thesis
    using first_collected_side_wins [of demo_page demo_tie_words "(100, 100, 400, 300)" Bottom
        "(ascii ''bottomtext'', 0)"] best
    by (simp add: demo_tie_sides demo_tie_scores del: score.simps)
qed









subsection \<open>Candidate merger\<close>


























end
